theory Spec2Isabelle
  imports Complex_Main
begin

section \<open>The QR styling and rendering engine of \<^verbatim>\<open>apps/web/lib/qr\<close>\<close>

text \<open>
  The development embeds the functions of \<^verbatim>\<open>lib/qr/utils.ts\<close> (\<^verbatim>\<open>excavateModules\<close>,
  \<^verbatim>\<open>generatePath\<close>, \<^verbatim>\<open>generateStyledModules\<close>, \<^verbatim>\<open>generateGradientDef\<close>,
  \<^verbatim>\<open>getImageSettings\<close>, \<^verbatim>\<open>convertImageSettingsToPixels\<close>, \<^verbatim>\<open>QRCodeSVG\<close>) and of the
  image route (\<^verbatim>\<open>checkQRTypePlanAccess\<close>, \<^verbatim>\<open>getQRCodeLogo\<close>, \<^verbatim>\<open>GET\<close>).

  Conventions. A JavaScript \<^verbatim>\<open>number\<close> that only ever holds an array index or a module
  count is a \<^typ>\<open>nat\<close> or an \<^typ>\<open>int\<close>; a number of the overlay geometry is a \<^typ>\<open>real\<close>
  (ideal arithmetic: rounding of binary floating point is not modelled). A property that may
  be \<^verbatim>\<open>undefined\<close> is an \<^typ>\<open>'a option\<close>. Strings stay strings, so that the
  comparisons \<^verbatim>\<open>===\<close> of the source are comparisons of the model. A module matrix is a list of
  rows, \<^term>\<open>True\<close> for a dark module.
\<close>

type_synonym Modules = "bool list list"


section \<open>Decimal output of integers\<close>

text \<open>
  Template literals print a number in decimal. \<open>show_nat\<close> and \<open>show_int\<close> are that output for
  the integers (below \<open>10\<^sup>2\<^sup>1\<close>, where JavaScript switches to exponent notation).
\<close>

definition digit_char :: "nat \<Rightarrow> char" where
  "digit_char d = ''0123456789'' ! d"

fun show_nat :: "nat \<Rightarrow> string" where
  "show_nat n = (if n < 10 then [digit_char n] else show_nat (n div 10) @ [digit_char (n mod 10)])"

declare show_nat.simps [simp del]

definition show_int :: "int \<Rightarrow> string" where
  "show_int i = (if i < 0 then CHR ''-'' # show_nat (nat (- i)) else show_nat (nat i))"


section \<open>PathEncoder: \<^verbatim>\<open>generatePath\<close>\<close>

text \<open>
  The three template literals of \<^verbatim>\<open>generatePath\<close>. \<open>op_closed\<close> is pushed when a light cell
  ends a run, \<open>op_single\<close> for a dark last cell with no run in progress, \<open>op_at_end\<close> for a run
  that reaches the last column.
\<close>

definition op_closed :: "nat \<Rightarrow> nat \<Rightarrow> nat \<Rightarrow> int \<Rightarrow> string" where
  "op_closed start y x margin =
     ''M'' @ show_int (int start + margin) @ '' '' @ show_int (int y + margin) @
     ''h'' @ show_int (int x - int start) @ ''v1H'' @ show_int (int start + margin) @ ''z''"

definition op_single :: "nat \<Rightarrow> nat \<Rightarrow> int \<Rightarrow> string" where
  "op_single x y margin =
     ''M'' @ show_int (int x + margin) @ '','' @ show_int (int y + margin) @
     '' h1v1H'' @ show_int (int x + margin) @ ''z''"

definition op_at_end :: "nat \<Rightarrow> nat \<Rightarrow> nat \<Rightarrow> int \<Rightarrow> string" where
  "op_at_end start y x margin =
     ''M'' @ show_int (int start + margin) @ '','' @ show_int (int y + margin) @
     '' h'' @ show_int (int x + 1 - int start) @ ''v1H'' @ show_int (int start + margin) @ ''z''"

text \<open>
  The callback of the inner \<^verbatim>\<open>row.forEach\<close>. Its state is the array \<^verbatim>\<open>ops\<close> and the variable
  \<^verbatim>\<open>start\<close> (\<^term>\<open>None\<close> for \<^verbatim>\<open>null\<close>); \<open>n\<close> is \<^verbatim>\<open>row.length\<close>. The three \<^verbatim>\<open>if\<close> statements
  are kept in the order of the source, each \<^verbatim>\<open>return\<close> ending the callback.
\<close>

fun path_cell :: "int \<Rightarrow> nat \<Rightarrow> nat \<Rightarrow> string list \<times> nat option \<Rightarrow> nat \<times> bool
    \<Rightarrow> string list \<times> nat option" where
  "path_cell margin y n (ops, start) (x, cell) =
     (case (cell, start) of
        (False, Some s) \<Rightarrow> (ops @ [op_closed s y x margin], None)
      | _ \<Rightarrow>
        if int x = int n - 1 then
          (if \<not> cell then (ops, start)
           else case start of
               None \<Rightarrow> (ops @ [op_single x y margin], start)
             | Some s \<Rightarrow> (ops @ [op_at_end s y x margin], start))
        else if cell \<and> start = None then (ops, Some x)
        else (ops, start))"

text \<open>The callback of the outer \<^verbatim>\<open>modules.forEach\<close>: \<^verbatim>\<open>start\<close> is fresh for every row.\<close>

definition path_row :: "int \<Rightarrow> string list \<Rightarrow> nat \<times> bool list \<Rightarrow> string list" where
  "path_row margin ops yrow =
     (case yrow of (y, row) \<Rightarrow>
        fst (foldl (path_cell margin y (length row)) (ops, None) (enumerate 0 row)))"

definition generatePath :: "Modules \<Rightarrow> int \<Rightarrow> string" where
  "generatePath modules margin = concat (foldl (path_row margin) [] (enumerate 0 modules))"


section \<open>Rasterising path data\<close>

text \<open>
  What a renderer makes of the string: the part of the SVG path grammar that \<^verbatim>\<open>generatePath\<close>
  writes, read the way SVG defines it. The data are commands \<^verbatim>\<open>M x y\<close> (move to), \<^verbatim>\<open>h dx\<close>
  and \<^verbatim>\<open>v dy\<close> (relative horizontal and vertical lines), \<^verbatim>\<open>H x\<close> (absolute horizontal
  line) and \<^verbatim>\<open>z\<close> (close the subpath); numbers are decimal integers with an optional minus
  sign; numbers are separated by spaces, commas, a sign or a command letter. Anything else is
  rejected (\<^term>\<open>None\<close>), also the repetition of arguments without a letter.
\<close>

datatype token = Number int | Letter char

datatype scan = Idle | Minus | Digits bool nat

definition digit_of :: "char \<Rightarrow> nat option" where
  "digit_of c =
     (if c \<in> set ''0123456789'' then Some (length (takeWhile (\<lambda>d. d \<noteq> c) ''0123456789''))
      else None)"

definition number_of :: "bool \<Rightarrow> nat \<Rightarrow> int" where
  "number_of negative v = (if negative then - int v else int v)"

text \<open>The scanner ends the number it is reading, if any; a lone minus sign is an error.\<close>

definition end_number :: "token list \<times> scan \<Rightarrow> token list option" where
  "end_number st =
     (case st of
        (toks, Idle) \<Rightarrow> Some toks
      | (toks, Minus) \<Rightarrow> None
      | (toks, Digits negative v) \<Rightarrow> Some (toks @ [Number (number_of negative v)]))"

definition lex_char :: "(token list \<times> scan) option \<Rightarrow> char \<Rightarrow> (token list \<times> scan) option" where
  "lex_char state c =
     (case state of
        None \<Rightarrow> None
      | Some (toks, sc) \<Rightarrow>
          (case digit_of c of
             Some d \<Rightarrow>
               Some (toks, case sc of Idle \<Rightarrow> Digits False d
                                    | Minus \<Rightarrow> Digits True d
                                    | Digits negative v \<Rightarrow> Digits negative (10 * v + d))
           | None \<Rightarrow>
               (case end_number (toks, sc) of
                  None \<Rightarrow> None
                | Some toks' \<Rightarrow>
                    if c = CHR ''-'' then Some (toks', Minus)
                    else if c = CHR '' '' \<or> c = CHR '','' then Some (toks', Idle)
                    else if c \<in> set ''MhvHz'' then Some (toks' @ [Letter c], Idle)
                    else None)))"

definition tokens_of :: "string \<Rightarrow> token list option" where
  "tokens_of s =
     (case foldl lex_char (Some ([], Idle)) s of None \<Rightarrow> None | Some st \<Rightarrow> end_number st)"

datatype path_cmd = MoveTo int int | HRel int | VRel int | HAbs int | ClosePath

fun commands_of :: "token list \<Rightarrow> path_cmd list option" where
  "commands_of [] = Some []"
| "commands_of (Number n # ts) = None"
| "commands_of (Letter c # ts) =
     (if c = CHR ''z'' then map_option (Cons ClosePath) (commands_of ts)
      else
        (case ts of
           Number a # ts1 \<Rightarrow>
             if c = CHR ''h'' then map_option (Cons (HRel a)) (commands_of ts1)
             else if c = CHR ''v'' then map_option (Cons (VRel a)) (commands_of ts1)
             else if c = CHR ''H'' then map_option (Cons (HAbs a)) (commands_of ts1)
             else if c = CHR ''M'' then
               (case ts1 of
                  Number b # ts2 \<Rightarrow> map_option (Cons (MoveTo a b)) (commands_of ts2)
                | _ \<Rightarrow> None)
             else None
         | _ \<Rightarrow> None))"

text \<open>
  Drawing: the state is the list of finished subpaths and the vertices of the subpath in
  progress. A line command needs a current point. \<^verbatim>\<open>z\<close> finishes the subpath and leaves the
  current point at its start; \<^verbatim>\<open>M\<close> starts a new subpath, and a subpath left open is filled
  as if it were closed. A subpath of a single point has no outline and is dropped.
\<close>

type_synonym point = "int \<times> int"

definition finish :: "point list list \<Rightarrow> point list \<Rightarrow> point list list" where
  "finish finished sub = (if length sub > 1 then finished @ [sub] else finished)"

definition draw ::
    "(point list list \<times> point list) option \<Rightarrow> path_cmd \<Rightarrow> (point list list \<times> point list) option" where
  "draw state cmd =
     (case state of
        None \<Rightarrow> None
      | Some (finished, sub) \<Rightarrow>
          (case cmd of
             MoveTo x y \<Rightarrow> Some (finish finished sub, [(x, y)])
           | HRel dx \<Rightarrow> if sub = [] then None
                        else Some (finished, sub @ [(fst (last sub) + dx, snd (last sub))])
           | VRel dy \<Rightarrow> if sub = [] then None
                        else Some (finished, sub @ [(fst (last sub), snd (last sub) + dy)])
           | HAbs x \<Rightarrow> if sub = [] then None
                       else Some (finished, sub @ [(x, snd (last sub))])
           | ClosePath \<Rightarrow> if sub = [] then None
                          else Some (finish finished sub, [hd sub])))"

definition subpaths_of :: "path_cmd list \<Rightarrow> point list list option" where
  "subpaths_of cmds =
     (case foldl draw (Some ([], [])) cmds of
        None \<Rightarrow> None
      | Some (finished, sub) \<Rightarrow> Some (finish finished sub))"

definition path_subpaths :: "string \<Rightarrow> point list list option" where
  "path_subpaths s = Option.bind (Option.bind (tokens_of s) commands_of) subpaths_of"

text \<open>
  Filling, by the non-zero winding rule (the default \<^verbatim>\<open>fill-rule\<close>). The unit cell \<open>(cx, cy)\<close>
  is sampled at its centre \<open>(cx + 1/2, cy + 1/2)\<close>; the winding number of a closed polygon
  there counts the edges that cross the horizontal ray from the centre to the left, \<open>+1\<close> for
  an edge going down and \<open>-1\<close> for one going up. All coordinates are doubled to stay in the
  integers: the edge from \<open>(x0, y0)\<close> to \<open>(x1, y1)\<close> meets the line of the centre at
  \<open>x0 + (cy + 1/2 - y0) (x1 - x0) / (y1 - y0)\<close>.
\<close>

definition edge_winding :: "point \<Rightarrow> point \<times> point \<Rightarrow> int" where
  "edge_winding c e =
     (case (c, e) of ((cx, cy), ((x0, y0), (x1, y1))) \<Rightarrow>
        if y0 \<le> cy \<and> cy < y1
           \<and> 2 * x0 * (y1 - y0) + (2 * cy + 1 - 2 * y0) * (x1 - x0) < (2 * cx + 1) * (y1 - y0)
        then 1
        else if y1 \<le> cy \<and> cy < y0
           \<and> 2 * x0 * (y0 - y1) + (2 * y0 - (2 * cy + 1)) * (x1 - x0) < (2 * cx + 1) * (y0 - y1)
        then - 1
        else 0)"

definition edges :: "point list \<Rightarrow> (point \<times> point) list" where
  "edges vs = zip vs (rotate1 vs)"

definition subpath_winding :: "point \<Rightarrow> point list \<Rightarrow> int" where
  "subpath_winding c vs = sum_list (map (edge_winding c) (edges vs))"

definition winding :: "point \<Rightarrow> point list list \<Rightarrow> int" where
  "winding c subs = sum_list (map (subpath_winding c) subs)"

text \<open>
  The cells a path fills, and the number of its subpaths (one for each run operation) that
  cover a cell.
\<close>

definition rasterize :: "string \<Rightarrow> point set option" where
  "rasterize s = map_option (\<lambda>subs. {c. winding c subs \<noteq> 0}) (path_subpaths s)"

definition covering_ops :: "string \<Rightarrow> point \<Rightarrow> nat option" where
  "covering_ops s c =
     map_option (\<lambda>subs. length (filter (\<lambda>vs. subpath_winding c vs \<noteq> 0) subs)) (path_subpaths s)"

text \<open>The dark cells of a matrix, shifted by the margin.\<close>

definition dark_cells :: "Modules \<Rightarrow> int \<Rightarrow> point set" where
  "dark_cells modules margin =
     {(int x + margin, int y + margin) | x y.
        y < length modules \<and> x < length (modules ! y) \<and> modules ! y ! x}"


subsection \<open>Runs\<close>

text \<open>
  The vocabulary of the correctness proof of \<^verbatim>\<open>generatePath\<close>. A run \<open>(mid, s, e)\<close> of a row
  stands for the dark cells \<open>s, \<dots>, e - 1\<close>; \<open>mid\<close> tells which template wrote it. Its
  operation draws the rectangle \<open>(a, b, w)\<close>: one module high, \<open>w\<close> wide, with its corner at
  \<open>(a, b)\<close>.
\<close>

definition run_op :: "int \<Rightarrow> nat \<Rightarrow> bool \<times> nat \<times> nat \<Rightarrow> string" where
  "run_op m y r = (case r of (mid, s, e) \<Rightarrow>
      if mid then op_closed s y e m else op_at_end s y (e - 1) m)"

definition run_cells :: "bool \<times> nat \<times> nat \<Rightarrow> nat list" where
  "run_cells r = (case r of (mid, s, e) \<Rightarrow> [s..<e])"

definition run_ok :: "bool \<times> nat \<times> nat \<Rightarrow> bool" where
  "run_ok r = (case r of (mid, s, e) \<Rightarrow> s < e)"

type_synonym rect = "int \<times> int \<times> int"

definition rect_tokens :: "rect \<Rightarrow> token list" where
  "rect_tokens r = (case r of (a, b, w) \<Rightarrow>
     [Letter CHR ''M'', Number a, Number b, Letter CHR ''h'', Number w, Letter CHR ''v'', Number 1,
      Letter CHR ''H'', Number a, Letter CHR ''z''])"

definition rect_cmds :: "rect \<Rightarrow> path_cmd list" where
  "rect_cmds r = (case r of (a, b, w) \<Rightarrow> [MoveTo a b, HRel w, VRel 1, HAbs a, ClosePath])"

definition rect_vertices :: "rect \<Rightarrow> point list" where
  "rect_vertices r = (case r of (a, b, w) \<Rightarrow> [(a, b), (a + w, b), (a + w, b + 1), (a, b + 1)])"

definition run_rect :: "int \<Rightarrow> nat \<times> bool \<times> nat \<times> nat \<Rightarrow> rect" where
  "run_rect m yr = (case yr of (y, mid, s, e) \<Rightarrow> (int s + m, int y + m, int e - int s))"

definition located_op :: "int \<Rightarrow> nat \<times> bool \<times> nat \<times> nat \<Rightarrow> string" where
  "located_op m yr = (case yr of (y, r) \<Rightarrow> run_op m y r)"

definition located_cells :: "nat \<times> bool \<times> nat \<times> nat \<Rightarrow> (nat \<times> nat) list" where
  "located_cells yr = (case yr of (y, r) \<Rightarrow> map (\<lambda>x. (x, y)) (run_cells r))"

definition shift :: "int \<Rightarrow> nat \<times> nat \<Rightarrow> point" where
  "shift m c = (case c of (x, y) \<Rightarrow> (int x + m, int y + m))"

definition dark_list :: "nat \<Rightarrow> Modules \<Rightarrow> (nat \<times> nat) list" where
  "dark_list k rows =
     concat (map (\<lambda>(y, row). map (\<lambda>x. (x, y)) (filter (\<lambda>x. row ! x) [0..<length row]))
                 (enumerate k rows))"



text \<open>
  The invariant of the inner loop before it reads the cell \<open>k\<close>: the runs written cover the
  dark cells before \<open>k\<close>, or before \<^verbatim>\<open>start\<close> when a run is in progress, and that run is dark
  up to \<open>k\<close>.
\<close>

definition row_inv :: "bool list \<Rightarrow> nat \<Rightarrow> (bool \<times> nat \<times> nat) list \<Rightarrow> nat option \<Rightarrow> bool" where
  "row_inv row k runs st =
     (list_all run_ok runs \<and>
      (case st of
         None \<Rightarrow> concat (map run_cells runs) = filter (\<lambda>x. row ! x) [0..<k]
       | Some s \<Rightarrow> s < k \<and> (\<forall>i. s \<le> i \<and> i < k \<longrightarrow> row ! i)
                   \<and> concat (map run_cells runs) = filter (\<lambda>x. row ! x) [0..<s]))"


section \<open>Excavation: \<^verbatim>\<open>excavateModules\<close>\<close>

record Excavation =
  e_x :: real
  e_y :: real
  e_w :: real
  e_h :: real

text \<open>
  \<^verbatim>\<open>modules.slice().map((row, y) => ...)\<close>: \<^verbatim>\<open>Array.prototype.map\<close> calls the callback with
  the element and its index, which is \<^term>\<open>map\<close> over \<^term>\<open>enumerate 0 modules\<close>.
  \<open>excavate_row\<close> is the inner \<^verbatim>\<open>row.map((cell, x) => ...)\<close>.
\<close>

definition excavate_row :: "Excavation \<Rightarrow> bool list \<Rightarrow> bool list" where
  "excavate_row excavation row =
     map (\<lambda>(x, cell).
            if real x < e_x excavation \<or> real x \<ge> e_x excavation + e_w excavation
            then cell else False)
         (enumerate 0 row)"

definition excavateModules :: "Modules \<Rightarrow> Excavation \<Rightarrow> Modules" where
  "excavateModules modules excavation =
     map (\<lambda>(y, row).
            if real y < e_y excavation \<or> real y \<ge> e_y excavation + e_h excavation then row
            else excavate_row excavation row)
         (enumerate 0 modules)"

text \<open>
  The same function over an explicit store, to follow which arrays it allocates and which it
  shares. An address is an index into the store: \<open>row_arrays\<close> holds the arrays of booleans,
  \<open>outer_arrays\<close> the arrays of row addresses, and an allocation appends. \<^verbatim>\<open>slice()\<close> allocates a
  copy of the outer array, \<^verbatim>\<open>row.map\<close> a new row, the outer \<^verbatim>\<open>map\<close> the result; a row outside
  the band of the excavation is returned as it is, so the result shares it with the input.
  Nothing is ever written to an existing array.
\<close>

record store =
  row_arrays :: "bool list list"
  outer_arrays :: "nat list list"

definition alloc_row :: "store \<Rightarrow> bool list \<Rightarrow> store \<times> nat" where
  "alloc_row h row = (h\<lparr>row_arrays := row_arrays h @ [row]\<rparr>, length (row_arrays h))"

definition alloc_outer :: "store \<Rightarrow> nat list \<Rightarrow> store \<times> nat" where
  "alloc_outer h refs = (h\<lparr>outer_arrays := outer_arrays h @ [refs]\<rparr>, length (outer_arrays h))"

definition excavate_step :: "Excavation \<Rightarrow> store \<times> nat list \<Rightarrow> nat \<times> nat \<Rightarrow> store \<times> nat list" where
  "excavate_step excavation acc yref =
     (case (acc, yref) of ((h, out), (y, r)) \<Rightarrow>
        if real y < e_y excavation \<or> real y \<ge> e_y excavation + e_h excavation
        then (h, out @ [r])
        else (case alloc_row h (excavate_row excavation (row_arrays h ! r)) of
                (h', r') \<Rightarrow> (h', out @ [r'])))"

definition excavateModules_store :: "store \<Rightarrow> nat \<Rightarrow> Excavation \<Rightarrow> store \<times> nat" where
  "excavateModules_store h modules excavation =
     (case alloc_outer h (outer_arrays h ! modules) of
        (h1, copy) \<Rightarrow>
          (case foldl (excavate_step excavation) (h1, []) (enumerate 0 (outer_arrays h1 ! copy)) of
             (h2, out) \<Rightarrow> alloc_outer h2 out))"

text \<open>The matrix an address denotes, and the addresses that denote one.\<close>

definition matrix_at :: "store \<Rightarrow> nat \<Rightarrow> Modules" where
  "matrix_at h a = map (\<lambda>r. row_arrays h ! r) (outer_arrays h ! a)"

definition valid_matrix :: "store \<Rightarrow> nat \<Rightarrow> bool" where
  "valid_matrix h a =
     (a < length (outer_arrays h) \<and> list_all (\<lambda>r. r < length (row_arrays h)) (outer_arrays h ! a))"


section \<open>StyledModuleRenderer: \<^verbatim>\<open>generateStyledModules\<close>\<close>

text \<open>
  The JSX elements the two render functions return; every one has \<^verbatim>\<open>fill="currentColor"\<close>.
  The \<^verbatim>\<open>points\<close> attribute of a polygon is kept as the list of its points.
\<close>

datatype shape =
    Circle (shape_key: string) (circle_cx: real) (circle_cy: real) (circle_r: real)
  | Rect (shape_key: string) (rect_x: real) (rect_y: real) (rect_width: real) (rect_height: real)
      (rect_rx: "real option") (rect_ry: "real option")
  | Polygon (shape_key: string) (polygon_points: "(real \<times> real) list")

definition renderDotModule :: "int \<Rightarrow> int \<Rightarrow> string \<Rightarrow> string \<Rightarrow> shape" where
  "renderDotModule x y style key =
     (let pad = 5 / 100 in
      if style = ''circle'' then Circle key (of_int x + 5 / 10) (of_int y + 5 / 10) (45 / 100)
      else if style = ''rounded'' then
        Rect key (of_int x + pad) (of_int y + pad) (1 - pad * 2) (1 - pad * 2)
          (Some (3 / 10)) (Some (3 / 10))
      else if style = ''diamond'' then
        Polygon key [(of_int x + 5 / 10, of_int y + 5 / 100), (of_int x + 95 / 100, of_int y + 5 / 10),
                     (of_int x + 5 / 10, of_int y + 95 / 100), (of_int x + 5 / 100, of_int y + 5 / 10)]
      else Rect key (of_int x) (of_int y) 1 1 None None)"

definition renderCornerModule :: "int \<Rightarrow> int \<Rightarrow> string \<Rightarrow> string \<Rightarrow> shape" where
  "renderCornerModule x y style key =
     (if style = ''circle'' then Circle key (of_int x + 5 / 10) (of_int y + 5 / 10) (5 / 10)
      else if style = ''rounded'' then
        Rect key (of_int x) (of_int y) 1 1 (Some (25 / 100)) (Some (25 / 100))
      else Rect key (of_int x) (of_int y) 1 1 None None)"

definition finderPositions :: "int \<Rightarrow> (int \<times> int) list" where
  "finderPositions msize = [(0, 0), (msize - 7, 0), (0, msize - 7)]"

definition isFinderModule :: "int \<Rightarrow> int \<Rightarrow> int \<Rightarrow> bool" where
  "isFinderModule msize x y =
     list_ex (\<lambda>(fx, fy). x \<ge> fx \<and> x < fx + 7 \<and> y \<ge> fy \<and> y < fy + 7) (finderPositions msize)"

definition styled_cell ::
    "int \<Rightarrow> int \<Rightarrow> string \<Rightarrow> string \<Rightarrow> nat \<Rightarrow> shape list \<Rightarrow> nat \<times> bool \<Rightarrow> shape list" where
  "styled_cell msize margin dotStyle cornerStyle y elements xcell =
     (case xcell of (x, cell) \<Rightarrow>
        if \<not> cell then elements
        else
          let cx = int x + margin;
              cy = int y + margin;
              key = show_nat x @ ''-'' @ show_nat y
          in if isFinderModule msize (int x) (int y)
             then elements @ [renderCornerModule cx cy cornerStyle key]
             else elements @ [renderDotModule cx cy dotStyle key])"

definition styled_row ::
    "int \<Rightarrow> int \<Rightarrow> string \<Rightarrow> string \<Rightarrow> shape list \<Rightarrow> nat \<times> bool list \<Rightarrow> shape list" where
  "styled_row msize margin dotStyle cornerStyle elements yrow =
     (case yrow of (y, row) \<Rightarrow>
        foldl (styled_cell msize margin dotStyle cornerStyle y) elements (enumerate 0 row))"

text \<open>\<^verbatim>\<open>dotStyle\<close> and \<^verbatim>\<open>cornerStyle\<close> default to \<^verbatim>\<open>"square"\<close> when the argument is \<^verbatim>\<open>undefined\<close>.\<close>

definition generateStyledModules ::
    "Modules \<Rightarrow> int \<Rightarrow> string option \<Rightarrow> string option \<Rightarrow> shape list" where
  "generateStyledModules modules margin dotStyle_arg cornerStyle_arg =
     (let dotStyle = (case dotStyle_arg of None \<Rightarrow> ''square'' | Some s \<Rightarrow> s);
          cornerStyle = (case cornerStyle_arg of None \<Rightarrow> ''square'' | Some s \<Rightarrow> s);
          msize = int (length modules)
      in foldl (styled_row msize margin dotStyle cornerStyle) [] (enumerate 0 modules))"


text \<open>
  The shape the specification gives the dark module at \<open>(x, y)\<close> of a matrix of side \<open>N\<close>: the
  corner style inside the three 7\<times>7 blocks \<open>[0,7)\<times>[0,7)\<close>, \<open>[N-7,N)\<times>[0,7)\<close> and
  \<open>[0,7)\<times>[N-7,N)\<close>, the dot style elsewhere.
\<close>

definition styled_shape :: "Modules \<Rightarrow> int \<Rightarrow> string \<Rightarrow> string \<Rightarrow> nat \<Rightarrow> nat \<Rightarrow> shape" where
  "styled_shape modules margin dotStyle cornerStyle x y =
     (let N = int (length modules); key = show_nat x @ ''-'' @ show_nat y in
      if (0 \<le> int x \<and> int x < 7 \<and> 0 \<le> int y \<and> int y < 7)
         \<or> (N - 7 \<le> int x \<and> int x < N \<and> 0 \<le> int y \<and> int y < 7)
         \<or> (0 \<le> int x \<and> int x < 7 \<and> N - 7 \<le> int y \<and> int y < N)
      then renderCornerModule (int x + margin) (int y + margin) cornerStyle key
      else renderDotModule (int x + margin) (int y + margin) dotStyle key)"


section \<open>GradientComposer: \<^verbatim>\<open>generateGradientDef\<close>\<close>

datatype gradient_stop = Stop (stop_offset: string) (stopColor: string)

datatype gradient =
    RadialGradient (gradient_id: string) (grad_cx: string) (grad_cy: string) (grad_r: string)
      (gradient_stops: "gradient_stop list")
  | LinearGradient (gradient_id: string) (grad_x1: string) (grad_y1: string) (grad_x2: string)
      (grad_y2: string) (gradient_stops: "gradient_stop list")

datatype svg_defs = Defs gradient

text \<open>
  The last three parameters have default values, which JavaScript takes when the argument
  is \<^verbatim>\<open>undefined\<close>.
\<close>

definition generateGradientDef ::
    "string \<Rightarrow> string option \<Rightarrow> string option \<Rightarrow> string option \<Rightarrow> svg_defs" where
  "generateGradientDef gid direction_arg startColor_arg endColor_arg =
     (let direction = (case direction_arg of None \<Rightarrow> ''horizontal'' | Some d \<Rightarrow> d);
          startColor = (case startColor_arg of None \<Rightarrow> ''#8A2BE2'' | Some c \<Rightarrow> c);
          endColor = (case endColor_arg of None \<Rightarrow> ''#00CED1'' | Some c \<Rightarrow> c)
      in if direction = ''radial'' then
           Defs (RadialGradient gid ''50%'' ''50%'' ''50%''
                  [Stop ''0%'' startColor, Stop ''100%'' endColor])
         else
           let (x2, y2) = (if direction = ''vertical'' then (''0%'', ''100%'')
                           else if direction = ''diagonal'' then (''100%'', ''100%'')
                           else (''100%'', ''0%''))
           in Defs (LinearGradient gid ''0%'' ''0%'' x2 y2
                     [Stop ''0%'' startColor, Stop ''100%'' endColor]))"


section \<open>ExcavationPlanner: \<^verbatim>\<open>getImageSettings\<close>\<close>

text \<open>
  JavaScript does not fail when it divides by zero: it goes on with \<^verbatim>\<open>Infinity\<close> or
  \<^verbatim>\<open>NaN\<close>. Those values are outside the real numbers of this model, so a function that
  divides returns \<open>NonFinite\<close> where its divisor is zero, and the model follows the source no
  further on that input.
\<close>

datatype 'a arith = Finite 'a | NonFinite

record ImageSettings =
  i_src :: string
  i_height :: real
  i_width :: real
  i_excavate :: bool
  i_x :: "real option"
  i_y :: "real option"

record Placement =
  c_x :: real
  c_y :: real
  c_h :: real
  c_w :: real
  c_excavation :: "Excavation option"

definition DEFAULT_SIZE :: real where "DEFAULT_SIZE = 128"
definition DEFAULT_LEVEL :: string where "DEFAULT_LEVEL = ''L''"
definition DEFAULT_BGCOLOR :: string where "DEFAULT_BGCOLOR = ''#FFFFFF''"
definition DEFAULT_FGCOLOR :: string where "DEFAULT_FGCOLOR = ''#000000''"
definition DEFAULT_MARGIN :: int where "DEFAULT_MARGIN = 2"
definition DEFAULT_IMG_SCALE :: real where "DEFAULT_IMG_SCALE = 1 / 10"

text \<open>
  \<^verbatim>\<open>imageSettings.width || defaultSize\<close> takes the default when the width is \<^verbatim>\<open>0\<close>, the falsy
  number. The parameter \<^verbatim>\<open>margin\<close> is not used by the source either.
\<close>

definition getImageSettings ::
    "Modules \<Rightarrow> real \<Rightarrow> int \<Rightarrow> ImageSettings option \<Rightarrow> Placement option arith" where
  "getImageSettings cells sz margin imageSettings =
     (case imageSettings of
        None \<Rightarrow> Finite None
      | Some settings \<Rightarrow>
          if sz = 0 then NonFinite
          else
            let qrCodeSize = real (length cells);
                defaultSize = of_int \<lfloor>sz * DEFAULT_IMG_SCALE\<rfloor>;
                scale = qrCodeSize / sz;
                w = (if i_width settings \<noteq> 0 then i_width settings else defaultSize) * scale;
                h = (if i_height settings \<noteq> 0 then i_height settings else defaultSize) * scale;
                x = (case i_x settings of None \<Rightarrow> qrCodeSize / 2 - w / 2 | Some ix \<Rightarrow> ix * scale);
                y = (case i_y settings of None \<Rightarrow> qrCodeSize / 2 - h / 2 | Some iy \<Rightarrow> iy * scale);
                excavation =
                  (if i_excavate settings then
                     let floorX = \<lfloor>x\<rfloor>;
                         floorY = \<lfloor>y\<rfloor>;
                         ceilW = \<lceil>w + x - of_int floorX\<rceil>;
                         ceilH = \<lceil>h + y - of_int floorY\<rceil>
                     in Some \<lparr>e_x = of_int floorX, e_y = of_int floorY,
                              e_w = of_int ceilW, e_h = of_int ceilH\<rparr>
                   else None)
            in Finite (Some \<lparr>c_x = x, c_y = y, c_h = h, c_w = w, c_excavation = excavation\<rparr>))"

record Pixels =
  imgWidth :: real
  imgHeight :: real
  imgLeft :: real
  imgTop :: real

definition convertImageSettingsToPixels :: "Placement \<Rightarrow> real \<Rightarrow> int \<Rightarrow> int \<Rightarrow> Pixels arith" where
  "convertImageSettingsToPixels calculatedImageSettings sz numCells margin =
     (if numCells = 0 then NonFinite
      else
        let pixelRatio = sz / of_int numCells
        in Finite \<lparr>imgWidth = c_w calculatedImageSettings * pixelRatio,
                   imgHeight = c_h calculatedImageSettings * pixelRatio,
                   imgLeft = (c_x calculatedImageSettings + of_int margin) * pixelRatio,
                   imgTop = (c_y calculatedImageSettings + of_int margin) * pixelRatio\<rparr>)"


section \<open>Property lookup on object literals\<close>

text \<open>
  \<^verbatim>\<open>ERROR_LEVEL_MAP\<close>, \<^verbatim>\<open>QR_TYPE_PLAN_REQUIREMENTS\<close> and \<^verbatim>\<open>PLAN_HIERARCHY\<close> are object literals
  read with a computed key, \<^verbatim>\<open>obj[key]\<close>. Such a read looks for an own property first and
  then along the prototype chain, which for an object literal is \<^verbatim>\<open>Object.prototype\<close>: a key
  that names one of its members yields that member (a function, or for \<^verbatim>\<open>__proto__\<close> the
  prototype object), and only a key found nowhere yields \<^verbatim>\<open>undefined\<close>.
\<close>

datatype 'a property = Own 'a | Inherited string | Undefined

definition object_prototype_names :: "string list" where
  "object_prototype_names =
     [''constructor'', ''hasOwnProperty'', ''isPrototypeOf'', ''propertyIsEnumerable'',
      ''toLocaleString'', ''toString'', ''valueOf'', ''__proto__'', ''__defineGetter__'',
      ''__defineSetter__'', ''__lookupGetter__'', ''__lookupSetter__'']"

definition get_property :: "(string \<times> 'a) list \<Rightarrow> string \<Rightarrow> 'a property" where
  "get_property obj k =
     (case map_of obj k of
        Some v \<Rightarrow> Own v
      | None \<Rightarrow> if k \<in> set object_prototype_names then Inherited k else Undefined)"


section \<open>LayoutCompositor: \<^verbatim>\<open>QRCodeSVG\<close>\<close>

datatype Ecc = LOW | MEDIUM | QUARTILE | HIGH

definition ERROR_LEVEL_MAP :: "(string \<times> Ecc) list" where
  "ERROR_LEVEL_MAP = [(''L'', LOW), (''M'', MEDIUM), (''Q'', QUARTILE), (''H'', HIGH)]"

record QRStyleSettings =
  s_dotStyle :: "string option"
  s_cornerStyle :: "string option"
  s_gradientDirection :: "string option"
  s_gradientStartColor :: "string option"
  s_gradientEndColor :: "string option"

text \<open>
  The properties \<^verbatim>\<open>QRCodeSVG\<close> destructures. The margin is an integer number of modules. The
  remaining properties (\<^verbatim>\<open>otherProps\<close>) are copied to the \<^verbatim>\<open>svg\<close> element and are left out.
\<close>

record QRProps =
  p_value :: string
  p_size :: "real option"
  p_level :: "string option"
  p_bgColor :: "string option"
  p_fgColor :: "string option"
  p_margin :: "int option"
  p_isOGContext :: "bool option"
  p_imageSettings :: "ImageSettings option"
  p_qrType :: "string option"
  p_qrStyle :: "QRStyleSettings option"

text \<open>The destructuring defaults: a default is taken when the property is \<^verbatim>\<open>undefined\<close>.\<close>

definition the_size :: "QRProps \<Rightarrow> real" where
  "the_size props = (case p_size props of None \<Rightarrow> DEFAULT_SIZE | Some v \<Rightarrow> v)"

definition the_level :: "QRProps \<Rightarrow> string" where
  "the_level props = (case p_level props of None \<Rightarrow> DEFAULT_LEVEL | Some v \<Rightarrow> v)"

definition the_bgColor :: "QRProps \<Rightarrow> string" where
  "the_bgColor props = (case p_bgColor props of None \<Rightarrow> DEFAULT_BGCOLOR | Some v \<Rightarrow> v)"

definition the_fgColor :: "QRProps \<Rightarrow> string" where
  "the_fgColor props = (case p_fgColor props of None \<Rightarrow> DEFAULT_FGCOLOR | Some v \<Rightarrow> v)"

definition the_margin :: "QRProps \<Rightarrow> int" where
  "the_margin props = (case p_margin props of None \<Rightarrow> DEFAULT_MARGIN | Some v \<Rightarrow> v)"

definition the_isOGContext :: "QRProps \<Rightarrow> bool" where
  "the_isOGContext props = (case p_isOGContext props of None \<Rightarrow> False | Some v \<Rightarrow> v)"

definition the_qrType :: "QRProps \<Rightarrow> string" where
  "the_qrType props = (case p_qrType props of None \<Rightarrow> ''standard'' | Some v \<Rightarrow> v)"

text \<open>\<^verbatim>\<open>a || b\<close> on an optional string: \<^verbatim>\<open>b\<close> when \<^verbatim>\<open>a\<close> is \<^verbatim>\<open>undefined\<close> or the empty string.\<close>

definition or_else :: "string option \<Rightarrow> string \<Rightarrow> string" where
  "or_else a b = (case a of None \<Rightarrow> b | Some v \<Rightarrow> if v = [] then b else v)"

definition shouldUseHigherErrorLevel :: "QRProps \<Rightarrow> bool" where
  "shouldUseHigherErrorLevel props =
     (the_isOGContext props
      \<and> (case p_imageSettings props of None \<Rightarrow> False | Some settings \<Rightarrow> i_excavate settings)
      \<and> (the_level props = ''L'' \<or> the_level props = ''M''))"

definition effectiveLevel :: "QRProps \<Rightarrow> string" where
  "effectiveLevel props =
     (if shouldUseHigherErrorLevel props then ''Q''
      else if (the_qrType props = ''custom'' \<or> the_qrType props = ''holographic'')
              \<and> (the_level props = ''L'' \<or> the_level props = ''M'')
      then ''Q''
      else the_level props)"

definition effectiveMargin :: "QRProps \<Rightarrow> int" where
  "effectiveMargin props =
     (if the_qrType props = ''micro'' then min (the_margin props) 1 else the_margin props)"

definition useStyledRendering :: "QRProps \<Rightarrow> bool" where
  "useStyledRendering props =
     ((the_qrType props = ''custom'' \<or> the_qrType props = ''holographic'') \<and> p_qrStyle props \<noteq> None)"

definition useGradient :: "QRProps \<Rightarrow> bool" where
  "useGradient props = (the_qrType props = ''holographic'' \<and> p_qrStyle props \<noteq> None)"

definition gradientId :: string where
  "gradientId = ''qr-holo-gradient''"

text \<open>
  The logo element: an HTML \<^verbatim>\<open>img\<close> with pixel coordinates in the screenshot context, an SVG
  \<^verbatim>\<open>image\<close> in module units otherwise.
\<close>

datatype image_element =
    Img (img_src: string) (img_left: real) (img_top: real) (img_width: real) (img_height: real)
  | SvgImage (image_href: string) (image_height: real) (image_width: real) (image_x: real)
      (image_y: real)

datatype foreground =
    PathForeground (fg_fill: string) (fg_d: string)
  | StyledForeground (fg_fill: string) (fg_elements: "shape list")

text \<open>
  The \<^verbatim>\<open>svg\<close> element returned: \<open>doc_numCells\<close> stands for the \<^verbatim>\<open>viewBox\<close>
  \<^verbatim>\<open>0 0 ${numCells} ${numCells}\<close> and for the background path \<^verbatim>\<open>M0,0 h${numCells}v${numCells}H0z\<close>;
  a child that is \<^verbatim>\<open>null\<close> or \<^verbatim>\<open>false\<close> is \<^term>\<open>None\<close>.
\<close>

record svg_doc =
  doc_height :: real
  doc_width :: real
  doc_numCells :: int
  doc_defs :: "svg_defs option"
  doc_bgFill :: string
  doc_foreground :: foreground
  doc_image :: "image_element option"

text \<open>
  The body of \<^verbatim>\<open>if (imageSettings != null && calculatedImageSettings != null)\<close>: the
  excavation of the cells, and the logo element.
\<close>

definition excavated_cells :: "QRProps \<Rightarrow> Modules \<Rightarrow> Placement option \<Rightarrow> Modules" where
  "excavated_cells props cells calculatedImageSettings =
     (case (p_imageSettings props, calculatedImageSettings) of
        (Some settings, Some calc) \<Rightarrow>
          (case c_excavation calc of None \<Rightarrow> cells | Some ex \<Rightarrow> excavateModules cells ex)
      | _ \<Rightarrow> cells)"

definition logo_image ::
    "QRProps \<Rightarrow> int \<Rightarrow> Placement option \<Rightarrow> image_element option arith" where
  "logo_image props numCells calculatedImageSettings =
     (case (p_imageSettings props, calculatedImageSettings) of
        (Some settings, Some calc) \<Rightarrow>
          if the_isOGContext props then
            (case convertImageSettingsToPixels calc (the_size props) numCells (effectiveMargin props) of
               NonFinite \<Rightarrow> NonFinite
             | Finite px \<Rightarrow>
                 Finite (Some (Img (i_src settings) (imgLeft px) (imgTop px) (imgWidth px)
                                 (imgHeight px))))
          else
            Finite (Some (SvgImage (i_src settings) (c_h calc) (c_w calc)
                            (c_x calc + of_int (effectiveMargin props))
                            (c_y calc + of_int (effectiveMargin props))))
      | _ \<Rightarrow> Finite None)"

text \<open>
  The outcome of a render: the element, the exception of the encoder, or \<open>Unmodelled\<close> where
  the source went on with a non-finite number.
\<close>

datatype ('e, 'a) outcome = Returned 'a | Thrown 'e | Unmodelled

text \<open>
  \<^verbatim>\<open>qrcodegen.QrCode.encodeText(...).getModules()\<close> is external to this module: it is the
  parameter \<open>encodeText\<close>, which returns the matrix or throws. Its second argument is what the
  lookup \<^verbatim>\<open>ERROR_LEVEL_MAP[effectiveLevel]\<close> yields.
\<close>

definition QRCodeSVG ::
    "(string \<Rightarrow> Ecc property \<Rightarrow> 'e + Modules) \<Rightarrow> QRProps \<Rightarrow> ('e, svg_doc) outcome" where
  "QRCodeSVG encodeText props =
     (case encodeText (p_value props) (get_property ERROR_LEVEL_MAP (effectiveLevel props)) of
        Inl e \<Rightarrow> Thrown e
      | Inr cells0 \<Rightarrow>
          let numCells = int (length cells0) + effectiveMargin props * 2 in
          (case getImageSettings cells0 (the_size props) (effectiveMargin props)
                  (p_imageSettings props) of
             NonFinite \<Rightarrow> Unmodelled
           | Finite calculatedImageSettings \<Rightarrow>
               let cells = excavated_cells props cells0 calculatedImageSettings in
               (case logo_image props numCells calculatedImageSettings of
                  NonFinite \<Rightarrow> Unmodelled
                | Finite image_el \<Rightarrow>
                    if useStyledRendering props then
                      let styledElements =
                            generateStyledModules cells (effectiveMargin props)
                              (Some (or_else (Option.bind (p_qrStyle props) s_dotStyle)
                                       (if the_qrType props = ''holographic''
                                        then ''rounded'' else ''square'')))
                              (Some (or_else (Option.bind (p_qrStyle props) s_cornerStyle)
                                       ''square''));
                          fillColor = (if useGradient props
                                       then ''url(#'' @ gradientId @ '')''
                                       else the_fgColor props)
                      in Returned
                           \<lparr>doc_height = the_size props, doc_width = the_size props,
                            doc_numCells = numCells,
                            doc_defs =
                              (if useGradient props then
                                 Some (generateGradientDef gradientId
                                   (Some (or_else (Option.bind (p_qrStyle props) s_gradientDirection)
                                            ''horizontal''))
                                   (Some (or_else (Option.bind (p_qrStyle props) s_gradientStartColor)
                                            ''#8A2BE2''))
                                   (Some (or_else (Option.bind (p_qrStyle props) s_gradientEndColor)
                                            ''#00CED1'')))
                               else None),
                            doc_bgFill = the_bgColor props,
                            doc_foreground = StyledForeground fillColor styledElements,
                            doc_image = image_el\<rparr>
                    else
                      let fgPath = generatePath cells (effectiveMargin props)
                      in Returned
                           \<lparr>doc_height = the_size props, doc_width = the_size props,
                            doc_numCells = numCells,
                            doc_defs = None,
                            doc_bgFill = the_bgColor props,
                            doc_foreground = PathForeground (the_fgColor props) fgPath,
                            doc_image = image_el\<rparr>)))"


section \<open>StyleAccessPolicy: \<^verbatim>\<open>checkQRTypePlanAccess\<close>\<close>

definition QR_LEVELS :: "string list" where
  "QR_LEVELS = [''L'', ''M'', ''Q'', ''H'']"

text \<open>
  The order \<open>L < M < Q < H\<close> of the levels is the order of \<^verbatim>\<open>QR_LEVELS\<close>: the rank of a level
  is its index there (and the length of the list for any other string).
\<close>

definition level_rank :: "string \<Rightarrow> nat" where
  "level_rank l = length (takeWhile (\<lambda>k. k \<noteq> l) QR_LEVELS)"

definition QR_TYPE_PLAN_REQUIREMENTS :: "(string \<times> string) list" where
  "QR_TYPE_PLAN_REQUIREMENTS =
     [(''standard'', ''free''), (''micro'', ''free''), (''compact'', ''pro''), (''custom'', ''pro''),
      (''holographic'', ''business''), (''cube3d'', ''business'')]"

definition PLAN_HIERARCHY :: "(string \<times> int) list" where
  "PLAN_HIERARCHY = [(''free'', 0), (''pro'', 1), (''business'', 2), (''enterprise'', 3)]"

text \<open>
  The value of \<^verbatim>\<open>requiredPlan\<close>: the name of a plan, or the member of \<^verbatim>\<open>Object.prototype\<close>
  that the lookup found. The value of a level: a number, or such a member, which \<^verbatim>\<open>>=\<close>
  converts to \<^verbatim>\<open>NaN\<close>.
\<close>

datatype plan_ref = PlanName string | PrototypeMember string

datatype level_value = Level int | MemberValue string

record Access =
  allowed :: bool
  requiredPlan :: plan_ref

text \<open>
  \<^verbatim>\<open>QR_TYPE_PLAN_REQUIREMENTS[qrType] || "business"\<close>: the fallback is taken for a falsy value,
  that is \<^verbatim>\<open>undefined\<close> or the empty string; an inherited member is an object and truthy.
\<close>

definition required_plan_of :: "string \<Rightarrow> plan_ref" where
  "required_plan_of qrType =
     (case get_property QR_TYPE_PLAN_REQUIREMENTS qrType of
        Own plan \<Rightarrow> if plan = [] then PlanName ''business'' else PlanName plan
      | Inherited m \<Rightarrow> PrototypeMember m
      | Undefined \<Rightarrow> PlanName ''business'')"

text \<open>
  \<^verbatim>\<open>PLAN_HIERARCHY[key] ?? 0\<close>: the fallback is taken for \<^verbatim>\<open>undefined\<close> only. A key that is
  not a string is converted to one first; the string of a function or of the prototype object
  names no property, so the lookup yields \<^verbatim>\<open>undefined\<close>.
\<close>

definition plan_level :: "plan_ref \<Rightarrow> level_value" where
  "plan_level key =
     (case key of
        PlanName plan \<Rightarrow>
          (case get_property PLAN_HIERARCHY plan of
             Own n \<Rightarrow> Level n
           | Inherited m \<Rightarrow> MemberValue m
           | Undefined \<Rightarrow> Level 0)
      | PrototypeMember m \<Rightarrow> Level 0)"

text \<open>\<^verbatim>\<open>a >= b\<close>: false as soon as one side converts to \<^verbatim>\<open>NaN\<close>.\<close>

definition js_ge :: "level_value \<Rightarrow> level_value \<Rightarrow> bool" where
  "js_ge a b = (case (a, b) of (Level m, Level n) \<Rightarrow> m \<ge> n | _ \<Rightarrow> False)"

definition checkQRTypePlanAccess :: "string \<Rightarrow> string option \<Rightarrow> Access" where
  "checkQRTypePlanAccess qrType workspacePlan =
     (let required = required_plan_of qrType;
          userLevel = plan_level (PlanName (or_else workspacePlan ''free''));
          requiredLevel = plan_level required
      in \<lparr>allowed = js_ge userLevel requiredLevel, requiredPlan = required\<rparr>)"


text \<open>
  The policy as the specification words it, to compare the function with: the plan a type
  requires (any unrecognised type requires \<^verbatim>\<open>business\<close>) and the tier of a plan (an
  unrecognised or missing plan counts as \<^verbatim>\<open>free\<close>).
\<close>

definition spec_required :: "string \<Rightarrow> string" where
  "spec_required t =
     (if t = ''standard'' then ''free'' else if t = ''micro'' then ''free''
      else if t = ''compact'' then ''pro'' else if t = ''custom'' then ''pro''
      else if t = ''holographic'' then ''business'' else if t = ''cube3d'' then ''business''
      else ''business'')"

definition spec_tier :: "string option \<Rightarrow> int" where
  "spec_tier p =
     (if p = Some ''free'' then 0 else if p = Some ''pro'' then 1
      else if p = Some ''business'' then 2 else if p = Some ''enterprise'' then 3 else 0)"


section \<open>The image route: \<^verbatim>\<open>GET\<close>\<close>

record Params =
  q_logo :: "string option"
  q_url :: string
  q_size :: real
  q_level :: string
  q_fgColor :: string
  q_bgColor :: string
  q_margin :: int
  q_hideLogo :: bool
  q_qrType :: string
  q_dotStyle :: string
  q_cornerStyle :: string
  q_gradientDirection :: string
  q_gradientStartColor :: string
  q_gradientEndColor :: string

record ShortLink =
  sl_projectId :: string
  sl_domain :: string

record Workspace =
  ws_plan :: "string option"
  ws_logo :: "string option"

record Domain =
  dom_logo :: "string option"

text \<open>
  What the route imports from outside this module: the lookups (taken to return: their own
  failures are not modelled), the rate limiter (\<^term>\<open>Some e\<close> when it throws \<open>e\<close>), the
  default logo and the encoder.
\<close>

record 'e Services =
  getShortLinkViaEdge :: "string \<Rightarrow> ShortLink option"
  getWorkspaceViaEdge :: "string \<Rightarrow> Workspace option"
  getDomainViaEdge :: "string \<Rightarrow> Domain option"
  isDubDomain :: "string \<Rightarrow> bool"
  DUB_QR_LOGO :: string
  ratelimitOrThrow :: "'e option"
  encodeText :: "string \<Rightarrow> Ecc property \<Rightarrow> 'e + Modules"

text \<open>The truthiness of an optional string, and \<^verbatim>\<open>url.split("?")[0]\<close>.\<close>

definition truthy :: "string option \<Rightarrow> bool" where
  "truthy a = (case a of None \<Rightarrow> False | Some v \<Rightarrow> v \<noteq> [])"

definition before_query :: "string \<Rightarrow> string" where
  "before_query url = takeWhile (\<lambda>c. c \<noteq> CHR ''?'') url"

definition getQRCodeLogo ::
    "'e Services \<Rightarrow> string \<Rightarrow> string option \<Rightarrow> bool \<Rightarrow> string option \<Rightarrow> string option" where
  "getQRCodeLogo services url logo hideLogo workspacePlan =
     (case getShortLinkViaEdge services (before_query url) of
        None \<Rightarrow> Some (DUB_QR_LOGO services)
      | Some shortLink \<Rightarrow>
          if workspacePlan = Some ''free'' \<or> \<not> truthy workspacePlan then Some (DUB_QR_LOGO services)
          else if hideLogo then None
          else if truthy logo then logo
          else
            let workspace = getWorkspaceViaEdge services (sl_projectId shortLink);
                workspaceLogo = Option.bind workspace ws_logo
            in if isDubDomain services (sl_domain shortLink) \<and> \<not> truthy workspaceLogo
               then Some (DUB_QR_LOGO services)
               else
                 let domainLogo = Option.bind (getDomainViaEdge services (sl_domain shortLink)) dom_logo
                 in if truthy domainLogo then domainLogo
                    else if truthy workspaceLogo then workspaceLogo
                    else Some (DUB_QR_LOGO services))"

text \<open>
  The body of the 403 response. Its message is the template literal
  \<^verbatim>\<open>The "${qrType}" QR code type requires a ${requiredPlan} plan or above. Upgrade to access this feature.\<close>,
  kept as the two values it interpolates.
\<close>

datatype message = RequiresPlan (msg_qrType: string) (msg_requiredPlan: plan_ref)

record ErrorBody =
  err_code :: string
  err_message :: message
  err_doc_url :: string

text \<open>
  The responses, without their headers: the JSON error with its status, the image with its
  width and height, the response \<^verbatim>\<open>handleAndReturnErrorResponse\<close> makes of a caught exception.
\<close>

datatype 'e response =
    JsonResponse nat ErrorBody
  | ImageResponse svg_doc real real
  | ErrorResponse 'e
  | UnmodelledResponse

definition route_workspacePlan :: "'e Services \<Rightarrow> Params \<Rightarrow> string option" where
  "route_workspacePlan services params =
     (case getShortLinkViaEdge services (before_query (q_url params)) of
        None \<Rightarrow> None
      | Some shortLink \<Rightarrow>
          (let plan = Option.bind (getWorkspaceViaEdge services (sl_projectId shortLink)) ws_plan
           in if truthy plan then plan else None))"

definition route_effectiveHideLogo :: "Params \<Rightarrow> bool" where
  "route_effectiveHideLogo params =
     (if q_qrType params = ''micro'' \<or> q_qrType params = ''compact'' then True
      else q_hideLogo params)"

definition route_effectiveMargin :: "Params \<Rightarrow> int" where
  "route_effectiveMargin params =
     (if q_qrType params = ''micro'' then min (q_margin params) 1 else q_margin params)"

definition route_qrStyle :: "Params \<Rightarrow> QRStyleSettings option" where
  "route_qrStyle params =
     (if q_qrType params = ''custom'' \<or> q_qrType params = ''holographic'' then
        Some \<lparr>s_dotStyle = Some (q_dotStyle params),
              s_cornerStyle = Some (q_cornerStyle params),
              s_gradientDirection =
                (if q_qrType params = ''holographic'' then Some (q_gradientDirection params) else None),
              s_gradientStartColor =
                (if q_qrType params = ''holographic'' then Some (q_gradientStartColor params) else None),
              s_gradientEndColor =
                (if q_qrType params = ''holographic'' then Some (q_gradientEndColor params) else None)\<rparr>
      else None)"

definition route_props :: "'e Services \<Rightarrow> Params \<Rightarrow> QRProps" where
  "route_props services params =
     (let qrCodeLogo = getQRCodeLogo services (q_url params) (q_logo params)
                         (route_effectiveHideLogo params) (route_workspacePlan services params)
      in \<lparr>p_value = q_url params,
          p_size = Some (q_size params),
          p_level = Some (q_level params),
          p_bgColor = Some (q_bgColor params),
          p_fgColor = Some (q_fgColor params),
          p_margin = Some (route_effectiveMargin params),
          p_isOGContext = Some True,
          p_imageSettings =
            (case qrCodeLogo of
               None \<Rightarrow> None
             | Some src \<Rightarrow>
                 if src = [] then None
                 else Some \<lparr>i_src = src, i_height = q_size params / 4,
                            i_width = q_size params / 4, i_excavate = True,
                            i_x = None, i_y = None\<rparr>),
          p_qrType = Some (q_qrType params),
          p_qrStyle = route_qrStyle params\<rparr>)"

text \<open>
  \<open>parsed\<close> is the outcome of \<^verbatim>\<open>getQRCodeQuerySchema.parse(getSearchParams(req.url))\<close>. Every
  exception thrown inside the \<^verbatim>\<open>try\<close> block ends in the \<^verbatim>\<open>catch\<close>.
\<close>

definition GET :: "'e Services \<Rightarrow> 'e + Params \<Rightarrow> 'e response" where
  "GET services parsed =
     (case parsed of
        Inl e \<Rightarrow> ErrorResponse e
      | Inr params \<Rightarrow>
          (case ratelimitOrThrow services of
             Some e \<Rightarrow> ErrorResponse e
           | None \<Rightarrow>
               let workspacePlan = route_workspacePlan services params;
                   access = checkQRTypePlanAccess (q_qrType params) workspacePlan
               in if q_qrType params \<noteq> ''standard'' \<and> \<not> allowed access then
                    JsonResponse 403
                      \<lparr>err_code = ''forbidden'',
                       err_message = RequiresPlan (q_qrType params) (requiredPlan access),
                       err_doc_url = ''https://dub.co/help/article/custom-qr-codes''\<rparr>
                  else
                    (case QRCodeSVG (encodeText services) (route_props services params) of
                       Returned doc \<Rightarrow> ImageResponse doc (q_size params) (q_size params)
                     | Thrown e \<Rightarrow> ErrorResponse e
                     | Unmodelled \<Rightarrow> UnmodelledResponse)))"


section \<open>Theorems\<close>

subsection \<open>Gradient definitions\<close>

text \<open>
  Claim C9. With direction \<^verbatim>\<open>radial\<close>, \<^verbatim>\<open>generateGradientDef\<close> returns a radial gradient with
  exactly two stops, the start colour at offset 0% and the end colour at offset 100%. With
  direction \<^verbatim>\<open>horizontal\<close>, \<^verbatim>\<open>vertical\<close> or \<^verbatim>\<open>diagonal\<close> it returns a linear gradient from
  (0%,0%) to (100%,0%), to (0%,100%) and to (100%,100%) respectively, with the same two stops.
\<close>

theorem generateGradientDef_shapes:
  "generateGradientDef gid (Some ''radial'') (Some c1) (Some c2) =
     Defs (RadialGradient gid ''50%'' ''50%'' ''50%'' [Stop ''0%'' c1, Stop ''100%'' c2])
   \<and> generateGradientDef gid (Some ''horizontal'') (Some c1) (Some c2) =
     Defs (LinearGradient gid ''0%'' ''0%'' ''100%'' ''0%'' [Stop ''0%'' c1, Stop ''100%'' c2])
   \<and> generateGradientDef gid (Some ''vertical'') (Some c1) (Some c2) =
     Defs (LinearGradient gid ''0%'' ''0%'' ''0%'' ''100%'' [Stop ''0%'' c1, Stop ''100%'' c2])
   \<and> generateGradientDef gid (Some ''diagonal'') (Some c1) (Some c2) =
     Defs (LinearGradient gid ''0%'' ''0%'' ''100%'' ''100%'' [Stop ''0%'' c1, Stop ''100%'' c2])"
  by (simp add: generateGradientDef_def)


subsection \<open>The effective error-correction level\<close>

lemma level_rank_values:
  "level_rank ''L'' = 0" "level_rank ''M'' = 1" "level_rank ''Q'' = 2" "level_rank ''H'' = 3"
  by (simp_all add: level_rank_def QR_LEVELS_def)

text \<open>
  Claim C2. The effective level is \<^verbatim>\<open>Q\<close> when the requested level is \<^verbatim>\<open>L\<close> or \<^verbatim>\<open>M\<close> and either
  the screenshot context comes with an excavating overlay or the type is \<^verbatim>\<open>custom\<close> or
  \<^verbatim>\<open>holographic\<close>; in every other case it is the requested level. So it is \<^verbatim>\<open>Q\<close> exactly
  when that condition holds or \<^verbatim>\<open>Q\<close> was requested, and it is never below the requested
  level in the order \<open>L < M < Q < H\<close>.
\<close>

theorem effectiveLevel_escalation:
  "effectiveLevel props =
     (if (the_level props = ''L'' \<or> the_level props = ''M'')
         \<and> ((the_isOGContext props \<and> map_option i_excavate (p_imageSettings props) = Some True)
            \<or> the_qrType props = ''custom'' \<or> the_qrType props = ''holographic'')
      then ''Q'' else the_level props)
   \<and> (effectiveLevel props = ''Q'') =
       ((the_level props = ''L'' \<or> the_level props = ''M'')
         \<and> ((the_isOGContext props \<and> map_option i_excavate (p_imageSettings props) = Some True)
            \<or> the_qrType props = ''custom'' \<or> the_qrType props = ''holographic'')
        \<or> the_level props = ''Q'')
   \<and> level_rank (the_level props) \<le> level_rank (effectiveLevel props)"
  by (auto simp: effectiveLevel_def shouldUseHigherErrorLevel_def level_rank_values
      split: option.splits)


subsection \<open>The outcomes of \<open>QRCodeSVG\<close>\<close>

lemma QRCodeSVG_Returned_path:
  assumes "enc (p_value props) (get_property ERROR_LEVEL_MAP (effectiveLevel props)) = Inr cells0"
    and "getImageSettings cells0 (the_size props) (effectiveMargin props) (p_imageSettings props) = Finite calc"
    and "logo_image props (int (length cells0) + effectiveMargin props * 2) calc = Finite img"
    and "\<not> useStyledRendering props"
  shows "QRCodeSVG enc props =
     Returned \<lparr>doc_height = the_size props, doc_width = the_size props,
               doc_numCells = int (length cells0) + effectiveMargin props * 2,
               doc_defs = None, doc_bgFill = the_bgColor props,
               doc_foreground = PathForeground (the_fgColor props)
                  (generatePath (excavated_cells props cells0 calc) (effectiveMargin props)),
               doc_image = img\<rparr>"
  using assms by (simp add: QRCodeSVG_def Let_def)

lemma QRCodeSVG_Returned_styled:
  assumes "enc (p_value props) (get_property ERROR_LEVEL_MAP (effectiveLevel props)) = Inr cells0"
    and "getImageSettings cells0 (the_size props) (effectiveMargin props) (p_imageSettings props) = Finite calc"
    and "logo_image props (int (length cells0) + effectiveMargin props * 2) calc = Finite img"
    and "useStyledRendering props"
  shows "\<exists>doc. QRCodeSVG enc props = Returned doc
     \<and> fg_elements (doc_foreground doc) =
         generateStyledModules (excavated_cells props cells0 calc) (effectiveMargin props)
           (Some (or_else (Option.bind (p_qrStyle props) s_dotStyle)
                    (if the_qrType props = ''holographic'' then ''rounded'' else ''square'')))
           (Some (or_else (Option.bind (p_qrStyle props) s_cornerStyle) ''square''))
     \<and> doc_image doc = img"
  using assms by (simp add: QRCodeSVG_def Let_def)

lemma QRCodeSVG_Thrown_iff:
  "QRCodeSVG enc props = Thrown e \<longleftrightarrow>
     enc (p_value props) (get_property ERROR_LEVEL_MAP (effectiveLevel props)) = Inl e"
  by (auto simp: QRCodeSVG_def Let_def split: sum.splits arith.splits)

lemma unstyled_the [simp]:
  "the_qrType (props\<lparr>p_qrStyle := s\<rparr>) = the_qrType props"
  "the_level (props\<lparr>p_qrStyle := s\<rparr>) = the_level props"
  "the_margin (props\<lparr>p_qrStyle := s\<rparr>) = the_margin props"
  "the_isOGContext (props\<lparr>p_qrStyle := s\<rparr>) = the_isOGContext props"
  "the_size (props\<lparr>p_qrStyle := s\<rparr>) = the_size props"
  "the_fgColor (props\<lparr>p_qrStyle := s\<rparr>) = the_fgColor props"
  "the_bgColor (props\<lparr>p_qrStyle := s\<rparr>) = the_bgColor props"
  by (simp_all add: the_qrType_def the_size_def the_fgColor_def the_bgColor_def
      the_level_def the_margin_def the_isOGContext_def)

lemma unstyled_higher [simp]:
  "shouldUseHigherErrorLevel (props\<lparr>p_qrStyle := s\<rparr>) = shouldUseHigherErrorLevel props"
  by (simp add: shouldUseHigherErrorLevel_def)

lemma unstyled_effective [simp]:
  "effectiveLevel (props\<lparr>p_qrStyle := s\<rparr>) = effectiveLevel props"
  "effectiveMargin (props\<lparr>p_qrStyle := s\<rparr>) = effectiveMargin props"
  by (simp_all add: effectiveLevel_def effectiveMargin_def)

lemma QRCodeSVG_Thrown:
  "enc (p_value props) (get_property ERROR_LEVEL_MAP (effectiveLevel props)) = Inl e
   \<Longrightarrow> QRCodeSVG enc props = Thrown e"
  by (simp add: QRCodeSVG_def)

lemma QRCodeSVG_Unmodelled_placement:
  "enc (p_value props) (get_property ERROR_LEVEL_MAP (effectiveLevel props)) = Inr cells0
   \<Longrightarrow> getImageSettings cells0 (the_size props) (effectiveMargin props) (p_imageSettings props) = NonFinite
   \<Longrightarrow> QRCodeSVG enc props = Unmodelled"
  by (simp add: QRCodeSVG_def Let_def)

lemma QRCodeSVG_Unmodelled_pixels:
  "enc (p_value props) (get_property ERROR_LEVEL_MAP (effectiveLevel props)) = Inr cells0
   \<Longrightarrow> getImageSettings cells0 (the_size props) (effectiveMargin props) (p_imageSettings props) = Finite calc
   \<Longrightarrow> logo_image props (int (length cells0) + effectiveMargin props * 2) calc = NonFinite
   \<Longrightarrow> QRCodeSVG enc props = Unmodelled"
  by (simp add: QRCodeSVG_def Let_def)

lemma unstyled_image [simp]:
  "excavated_cells (props\<lparr>p_qrStyle := s\<rparr>) cells calc = excavated_cells props cells calc"
  "logo_image (props\<lparr>p_qrStyle := s\<rparr>) n calc = logo_image props n calc"
  by (simp_all add: excavated_cells_def logo_image_def split: option.splits)

lemma unstyled_mode [simp]:
  "the_qrType props \<noteq> ''custom'' \<and> the_qrType props \<noteq> ''holographic'' \<Longrightarrow> \<not> useStyledRendering (props\<lparr>p_qrStyle := s\<rparr>)"
  by (simp add: useStyledRendering_def)


subsection \<open>Style options and the rendering mode\<close>

text \<open>
  Claim C8. When the type is neither \<^verbatim>\<open>custom\<close> nor \<^verbatim>\<open>holographic\<close>, or no style settings are
  given, \<^verbatim>\<open>QRCodeSVG\<close> does not render in styled mode: for such a type the style settings have
  no influence on the outcome at all, the only exception it can end in is the one of the
  encoder, and when the encoder returns (and the geometry is finite) the outcome is the
  complete document of path mode, whose foreground is the single path of \<^verbatim>\<open>generatePath\<close>.
\<close>

theorem QRCodeSVG_style_fallback:
  assumes "(the_qrType props \<noteq> ''custom'' \<and> the_qrType props \<noteq> ''holographic'') \<or> p_qrStyle props = None"
  shows "\<not> useStyledRendering props
    \<and> ((the_qrType props \<noteq> ''custom'' \<and> the_qrType props \<noteq> ''holographic'') \<longrightarrow>
          (\<forall>s. QRCodeSVG enc (props\<lparr>p_qrStyle := s\<rparr>) = QRCodeSVG enc props))
    \<and> (\<forall>e. QRCodeSVG enc props = Thrown e \<longleftrightarrow>
          enc (p_value props) (get_property ERROR_LEVEL_MAP (effectiveLevel props)) = Inl e)
    \<and> (\<forall>cells0 calc img.
          enc (p_value props) (get_property ERROR_LEVEL_MAP (effectiveLevel props)) = Inr cells0
          \<and> getImageSettings cells0 (the_size props) (effectiveMargin props) (p_imageSettings props) = Finite calc
          \<and> logo_image props (int (length cells0) + effectiveMargin props * 2) calc = Finite img
          \<longrightarrow> QRCodeSVG enc props =
                Returned \<lparr>doc_height = the_size props, doc_width = the_size props,
                   doc_numCells = int (length cells0) + effectiveMargin props * 2,
                   doc_defs = None, doc_bgFill = the_bgColor props,
                   doc_foreground = PathForeground (the_fgColor props)
                      (generatePath (excavated_cells props cells0 calc) (effectiveMargin props)),
                   doc_image = img\<rparr>)"
proof -
  from assms have ns: "\<not> useStyledRendering props"
    by (auto simp: useStyledRendering_def)
  have same: "QRCodeSVG enc (props\<lparr>p_qrStyle := s\<rparr>) = QRCodeSVG enc props"
    if t: "the_qrType props \<noteq> ''custom'' \<and> the_qrType props \<noteq> ''holographic''" for s
  proof (cases "enc (p_value props) (get_property ERROR_LEVEL_MAP (effectiveLevel props))")
    case (Inl e)
    then show ?thesis
      using QRCodeSVG_Thrown [of enc props e] QRCodeSVG_Thrown [of enc "props\<lparr>p_qrStyle := s\<rparr>" e]
      by simp
  next
    case (Inr cells0)
    show ?thesis
    proof (cases "getImageSettings cells0 (the_size props) (effectiveMargin props) (p_imageSettings props)")
      case NonFinite
      then show ?thesis
        using Inr QRCodeSVG_Unmodelled_placement [of enc props cells0]
          QRCodeSVG_Unmodelled_placement [of enc "props\<lparr>p_qrStyle := s\<rparr>" cells0]
        by simp
    next
      case (Finite calc)
      show ?thesis
      proof (cases "logo_image props (int (length cells0) + effectiveMargin props * 2) calc")
        case NonFinite
        then show ?thesis
          using Inr Finite QRCodeSVG_Unmodelled_pixels [of enc props cells0 calc]
            QRCodeSVG_Unmodelled_pixels [of enc "props\<lparr>p_qrStyle := s\<rparr>" cells0 calc]
          by simp
      next
        case img: (Finite img)
        show ?thesis
          using Inr Finite img ns unstyled_mode [OF t, of s]
            QRCodeSVG_Returned_path [of enc props cells0 calc img]
            QRCodeSVG_Returned_path [of enc "props\<lparr>p_qrStyle := s\<rparr>" cells0 calc img]
          by simp
      qed
    qed
  qed
  show ?thesis
    using ns same QRCodeSVG_Thrown_iff [of enc props]
    by (auto intro!: QRCodeSVG_Returned_path)
qed


theorem QRCodeSVG_style_fallback_witness:
  "QRCodeSVG (\<lambda>v l. (Inr [[True]] :: unit + Modules))
      \<lparr>p_value = ''https://dub.sh/x'', p_size = None, p_level = None, p_bgColor = None,
       p_fgColor = None, p_margin = None, p_isOGContext = None, p_imageSettings = None,
       p_qrType = Some ''standard'',
       p_qrStyle = Some \<lparr>s_dotStyle = Some ''circle'', s_cornerStyle = Some ''rounded'',
         s_gradientDirection = None, s_gradientStartColor = None, s_gradientEndColor = None\<rparr>\<rparr>
     = Returned \<lparr>doc_height = 128, doc_width = 128, doc_numCells = 5, doc_defs = None,
         doc_bgFill = ''#FFFFFF'',
         doc_foreground = PathForeground ''#000000'' (generatePath [[True]] 2),
         doc_image = None\<rparr>"
  using QRCodeSVG_style_fallback [of
      "\<lparr>p_value = ''https://dub.sh/x'', p_size = None, p_level = None, p_bgColor = None,
       p_fgColor = None, p_margin = None, p_isOGContext = None, p_imageSettings = None,
       p_qrType = Some ''standard'',
       p_qrStyle = Some \<lparr>s_dotStyle = Some ''circle'', s_cornerStyle = Some ''rounded'',
         s_gradientDirection = None, s_gradientStartColor = None, s_gradientEndColor = None\<rparr>\<rparr>"
      "\<lambda>v l. (Inr [[True]] :: unit + Modules)"]
  by (simp add: the_qrType_def getImageSettings_def logo_image_def effectiveMargin_def
      the_margin_def DEFAULT_MARGIN_def excavated_cells_def the_size_def DEFAULT_SIZE_def
      the_bgColor_def the_fgColor_def DEFAULT_BGCOLOR_def DEFAULT_FGCOLOR_def)


subsection \<open>Plan access\<close>

text \<open>
  For a type and a plan that name no member of \<^verbatim>\<open>Object.prototype\<close>, the function is the
  policy: access is allowed exactly when the tier of the plan reaches the tier of the
  required plan, and the required plan is the one of the table, \<^verbatim>\<open>business\<close> for an
  unrecognised type.
\<close>

lemma required_plan_of_own:
  "t \<notin> set object_prototype_names \<Longrightarrow> required_plan_of t = PlanName (spec_required t)"
  by (simp add: required_plan_of_def get_property_def QR_TYPE_PLAN_REQUIREMENTS_def spec_required_def)

lemma plan_level_own:
  "p \<notin> set object_prototype_names \<Longrightarrow> plan_level (PlanName p) = Level (spec_tier (Some p))"
  by (simp add: plan_level_def get_property_def PLAN_HIERARCHY_def spec_tier_def)

lemma spec_required_not_inherited: "spec_required t \<notin> set object_prototype_names"
  by (simp add: spec_required_def object_prototype_names_def)

lemma checkQRTypePlanAccess_table:
  assumes "qrType \<notin> set object_prototype_names"
    and "or_else workspacePlan ''free'' \<notin> set object_prototype_names"
  shows "checkQRTypePlanAccess qrType workspacePlan =
     \<lparr>allowed = (spec_tier workspacePlan \<ge> spec_tier (Some (spec_required qrType))),
      requiredPlan = PlanName (spec_required qrType)\<rparr>"
proof -
  have "spec_tier (Some (or_else workspacePlan ''free'')) = spec_tier workspacePlan"
    by (auto simp: or_else_def spec_tier_def split: option.splits)
  then show ?thesis
    using assms
    by (simp add: checkQRTypePlanAccess_def required_plan_of_own plan_level_own
        spec_required_not_inherited js_ge_def)
qed


text \<open>
  The response of the route on a denial does not depend on the encoder: the denial is decided
  before the matrix is computed.
\<close>

lemma route_workspacePlan_encodeText [simp]:
  "route_workspacePlan (services\<lparr>encodeText := enc\<rparr>) params = route_workspacePlan services params"
  by (simp add: route_workspacePlan_def cong: option.case_cong)

lemma GET_denied:
  assumes "ratelimitOrThrow services = None"
    and "q_qrType params \<noteq> ''standard''"
    and "\<not> allowed (checkQRTypePlanAccess (q_qrType params) (route_workspacePlan services params))"
  shows "GET (services\<lparr>encodeText := enc\<rparr>) (Inr params) =
     JsonResponse 403
       \<lparr>err_code = ''forbidden'',
        err_message = RequiresPlan (q_qrType params)
          (requiredPlan (checkQRTypePlanAccess (q_qrType params) (route_workspacePlan services params))),
        err_doc_url = ''https://dub.co/help/article/custom-qr-codes''\<rparr>"
  using assms by (simp add: GET_def Let_def)


text \<open>
  Claim C3. For a type and a plan that name no member of \<^verbatim>\<open>Object.prototype\<close> (the six types the
  schema of the route admits and the four plans are such, and so is a missing plan),
  \<^verbatim>\<open>checkQRTypePlanAccess\<close> allows access exactly when the tier of the plan reaches the tier of the
  required plan, and returns the required plan of the table, \<^verbatim>\<open>business\<close> for an unrecognised
  type. When the route is asked for such a type other than \<^verbatim>\<open>standard\<close> and the plan of the
  workspace is below the required tier, it answers 403 with the code \<^verbatim>\<open>forbidden\<close> and the
  required plan, whatever the encoder would do.
\<close>

theorem checkQRTypePlanAccess_policy:
  assumes "t \<notin> set object_prototype_names"
    and "or_else p ''free'' \<notin> set object_prototype_names"
  shows "checkQRTypePlanAccess t p =
       \<lparr>allowed = (spec_tier p \<ge> spec_tier (Some (spec_required t))),
        requiredPlan = PlanName (spec_required t)\<rparr>
     \<and> (ratelimitOrThrow services = None \<and> q_qrType params = t \<and> t \<noteq> ''standard''
          \<and> route_workspacePlan services params = p
          \<and> spec_tier p < spec_tier (Some (spec_required t))
        \<longrightarrow> (\<forall>enc. GET (services\<lparr>encodeText := enc\<rparr>) (Inr params) =
               JsonResponse 403
                 \<lparr>err_code = ''forbidden'',
                  err_message = RequiresPlan t (PlanName (spec_required t)),
                  err_doc_url = ''https://dub.co/help/article/custom-qr-codes''\<rparr>))"
proof -
  note table = checkQRTypePlanAccess_table [OF assms]
  have "GET (services\<lparr>encodeText := enc\<rparr>) (Inr params) =
               JsonResponse 403
                 \<lparr>err_code = ''forbidden'',
                  err_message = RequiresPlan t (PlanName (spec_required t)),
                  err_doc_url = ''https://dub.co/help/article/custom-qr-codes''\<rparr>"
    if "ratelimitOrThrow services = None" and "q_qrType params = t" and "t \<noteq> ''standard''"
      and "route_workspacePlan services params = p"
      and "spec_tier p < spec_tier (Some (spec_required t))" for enc
    using GET_denied [of services params enc] that table by simp
  then show ?thesis
    using table by blast
qed

text \<open>
  The scenario of the specification: \<^verbatim>\<open>holographic\<close> on the free plan is denied with
  \<^verbatim>\<open>business\<close>, in the function and in the response of the route.
\<close>

theorem checkQRTypePlanAccess_policy_witness:
  "checkQRTypePlanAccess ''holographic'' (Some ''free'') =
       \<lparr>allowed = False, requiredPlan = PlanName ''business''\<rparr>
   \<and> GET \<lparr>getShortLinkViaEdge = (\<lambda>k. Some \<lparr>sl_projectId = ''ws_1'', sl_domain = ''dub.sh''\<rparr>),
          getWorkspaceViaEdge = (\<lambda>i. Some \<lparr>ws_plan = Some ''free'', ws_logo = None\<rparr>),
          getDomainViaEdge = (\<lambda>d. None), isDubDomain = (\<lambda>d. True),
          DUB_QR_LOGO = ''https://assets.dub.co/logo.png'',
          ratelimitOrThrow = (None :: unit option),
          encodeText = (\<lambda>v l. Inr [[True]])\<rparr>
        (Inr \<lparr>q_logo = None, q_url = ''https://dub.sh/x'', q_size = 600, q_level = ''L'',
          q_fgColor = ''#000000'', q_bgColor = ''#FFFFFF'', q_margin = 2, q_hideLogo = False,
          q_qrType = ''holographic'', q_dotStyle = ''square'', q_cornerStyle = ''square'',
          q_gradientDirection = ''horizontal'', q_gradientStartColor = ''#8A2BE2'',
          q_gradientEndColor = ''#00CED1''\<rparr>) =
       JsonResponse 403
         \<lparr>err_code = ''forbidden'',
          err_message = RequiresPlan ''holographic'' (PlanName ''business''),
          err_doc_url = ''https://dub.co/help/article/custom-qr-codes''\<rparr>"
  using checkQRTypePlanAccess_policy [of "''holographic''" "Some ''free''"
     "\<lparr>getShortLinkViaEdge = (\<lambda>k. Some \<lparr>sl_projectId = ''ws_1'', sl_domain = ''dub.sh''\<rparr>),
          getWorkspaceViaEdge = (\<lambda>i. Some \<lparr>ws_plan = Some ''free'', ws_logo = None\<rparr>),
          getDomainViaEdge = (\<lambda>d. None), isDubDomain = (\<lambda>d. True),
          DUB_QR_LOGO = ''https://assets.dub.co/logo.png'',
          ratelimitOrThrow = (None :: unit option),
          encodeText = (\<lambda>v l. Inr [[True]])\<rparr>"
     "\<lparr>q_logo = None, q_url = ''https://dub.sh/x'', q_size = 600, q_level = ''L'',
          q_fgColor = ''#000000'', q_bgColor = ''#FFFFFF'', q_margin = 2, q_hideLogo = False,
          q_qrType = ''holographic'', q_dotStyle = ''square'', q_cornerStyle = ''square'',
          q_gradientDirection = ''horizontal'', q_gradientStartColor = ''#8A2BE2'',
          q_gradientEndColor = ''#00CED1''\<rparr>"]
  by (simp add: object_prototype_names_def or_else_def spec_tier_def spec_required_def
      route_workspacePlan_def truthy_def)

text \<open>
  The claim as stated ranges over every type string. At the type \<^verbatim>\<open>constructor\<close> the lookup in
  the table finds the member inherited from \<^verbatim>\<open>Object.prototype\<close>, which is truthy, so the
  fallback to \<^verbatim>\<open>business\<close> is not taken; the level of that value is \<^verbatim>\<open>0\<close>, and a free plan is
  allowed, where the policy denies it. The route never passes such a string: its schema admits
  the six types only.
\<close>

theorem checkQRTypePlanAccess_inherited_key:
  "checkQRTypePlanAccess ''constructor'' (Some ''free'') =
     \<lparr>allowed = True, requiredPlan = PrototypeMember ''constructor''\<rparr>
   \<and> \<not> (spec_tier (Some ''free'') \<ge> spec_tier (Some (spec_required ''constructor'')))"
  by (simp add: checkQRTypePlanAccess_def required_plan_of_def plan_level_def get_property_def
      QR_TYPE_PLAN_REQUIREMENTS_def PLAN_HIERARCHY_def object_prototype_names_def js_ge_def
      or_else_def spec_tier_def spec_required_def)

text \<open>
  The same lookup on the side of the plan: a plan named like an inherited member has a level
  that is no number, and is denied even what the free plan may use. And the two scenarios of
  the specification.
\<close>

lemma checkQRTypePlanAccess_inherited_plan:
  "checkQRTypePlanAccess ''micro'' (Some ''toString'') =
     \<lparr>allowed = False, requiredPlan = PlanName ''free''\<rparr>"
  by (simp add: checkQRTypePlanAccess_def required_plan_of_def plan_level_def get_property_def
      QR_TYPE_PLAN_REQUIREMENTS_def PLAN_HIERARCHY_def object_prototype_names_def js_ge_def
      or_else_def)

lemma checkQRTypePlanAccess_scenarios:
  "checkQRTypePlanAccess ''holographic'' (Some ''free'') =
     \<lparr>allowed = False, requiredPlan = PlanName ''business''\<rparr>"
  "allowed (checkQRTypePlanAccess ''standard'' (Some ''free''))"
  by (simp_all add: checkQRTypePlanAccess_def required_plan_of_def plan_level_def get_property_def
      QR_TYPE_PLAN_REQUIREMENTS_def PLAN_HIERARCHY_def object_prototype_names_def js_ge_def
      or_else_def)


subsection \<open>The excavation rectangle\<close>







subsection \<open>The micro type\<close>

lemma QRCodeSVG_Returned_D:
  assumes "QRCodeSVG enc props = Returned doc"
  shows "\<exists>cells0 calc.
           enc (p_value props) (get_property ERROR_LEVEL_MAP (effectiveLevel props)) = Inr cells0
         \<and> getImageSettings cells0 (the_size props) (effectiveMargin props) (p_imageSettings props) = Finite calc
         \<and> logo_image props (int (length cells0) + effectiveMargin props * 2) calc = Finite (doc_image doc)
         \<and> doc_numCells doc = int (length cells0) + effectiveMargin props * 2"
proof (cases "enc (p_value props) (get_property ERROR_LEVEL_MAP (effectiveLevel props))")
  case (Inl e)
  then show ?thesis using assms QRCodeSVG_Thrown [of enc props e] by simp
next
  case (Inr cells0)
  show ?thesis
  proof (cases "getImageSettings cells0 (the_size props) (effectiveMargin props) (p_imageSettings props)")
    case NonFinite
    then show ?thesis
      using assms Inr QRCodeSVG_Unmodelled_placement [of enc props cells0] by simp
  next
    case (Finite calc)
    show ?thesis
    proof (cases "logo_image props (int (length cells0) + effectiveMargin props * 2) calc")
      case NonFinite
      then show ?thesis
        using assms Inr Finite QRCodeSVG_Unmodelled_pixels [of enc props cells0 calc] by simp
    next
      case img: (Finite img)
      show ?thesis
      proof (cases "useStyledRendering props")
        case True
        then show ?thesis
          using assms Inr Finite img by (auto simp: QRCodeSVG_def Let_def)
      next
        case False
        then show ?thesis
          using assms Inr Finite img QRCodeSVG_Returned_path [of enc props cells0 calc img] by auto
      qed
    qed
  qed
qed

lemma logo_image_None_iff:
  assumes "getImageSettings cells sz m (p_imageSettings props) = Finite calc"
    and "logo_image props n calc = Finite img"
  shows "img = None \<longleftrightarrow> p_imageSettings props = None"
  using assms
  by (auto simp: getImageSettings_def logo_image_def Let_def
      split: option.splits if_splits arith.splits)

lemma route_workspacePlan_truthy:
  "route_workspacePlan services params = Some plan \<Longrightarrow> plan \<noteq> []"
  by (auto simp: route_workspacePlan_def truthy_def Let_def split: option.splits if_splits)

lemma route_workspacePlan_None:
  "getShortLinkViaEdge services (before_query (q_url params)) = None
   \<Longrightarrow> route_workspacePlan services params = None"
  by (simp add: route_workspacePlan_def)

lemma getQRCodeLogo_hidden:
  assumes "DUB_QR_LOGO services \<noteq> []"
  shows "getQRCodeLogo services (q_url params) logo True (route_workspacePlan services params) =
     (case route_workspacePlan services params of
        None \<Rightarrow> Some (DUB_QR_LOGO services)
      | Some plan \<Rightarrow> if plan = ''free'' then Some (DUB_QR_LOGO services) else None)"
proof (cases "getShortLinkViaEdge services (before_query (q_url params))")
  case None
  then show ?thesis
    by (simp add: getQRCodeLogo_def route_workspacePlan_None)
next
  case (Some shortLink)
  show ?thesis
  proof (cases "route_workspacePlan services params")
    case None
    then show ?thesis using Some by (simp add: getQRCodeLogo_def truthy_def)
  next
    case plan: (Some plan)
    then show ?thesis
      using Some route_workspacePlan_truthy [OF plan]
      by (simp add: getQRCodeLogo_def truthy_def)
  qed
qed


text \<open>
  Claim C6, as amended. For the type \<^verbatim>\<open>micro\<close> the effective margin is the minimum of the
  requested margin and 1, in \<^verbatim>\<open>QRCodeSVG\<close> (where the document is laid out with it) and in the
  route. \<^verbatim>\<open>QRCodeSVG\<close> composites a logo exactly when image settings are supplied, for this
  type as for any other. The route, which forces \<^verbatim>\<open>hideLogo\<close> for \<^verbatim>\<open>micro\<close>, supplies no image
  settings exactly when the workspace of the short link has a plan other than \<^verbatim>\<open>free\<close>;
  otherwise it supplies the default logo.
\<close>

theorem micro_margin_and_logo:
  assumes "the_qrType props = ''micro''"
    and "q_qrType params = ''micro''"
    and "DUB_QR_LOGO services \<noteq> []"
  shows "effectiveMargin props = min (the_margin props) 1
    \<and> (\<forall>doc. QRCodeSVG enc props = Returned doc \<longrightarrow>
          (\<exists>cells0. enc (p_value props) (get_property ERROR_LEVEL_MAP (effectiveLevel props)) = Inr cells0
               \<and> doc_numCells doc = int (length cells0) + min (the_margin props) 1 * 2)
          \<and> (doc_image doc = None \<longleftrightarrow> p_imageSettings props = None))
    \<and> p_margin (route_props services params) = Some (min (q_margin params) 1)
    \<and> (p_imageSettings (route_props services params) = None \<longleftrightarrow>
          (\<exists>plan. route_workspacePlan services params = Some plan \<and> plan \<noteq> ''free''))
    \<and> (\<forall>settings. p_imageSettings (route_props services params) = Some settings \<longrightarrow>
          i_src settings = DUB_QR_LOGO services)"
proof -
  have m: "effectiveMargin props = min (the_margin props) 1"
    using assms(1) by (simp add: effectiveMargin_def)
  have d: "(\<exists>cells0. enc (p_value props) (get_property ERROR_LEVEL_MAP (effectiveLevel props)) = Inr cells0
               \<and> doc_numCells doc = int (length cells0) + min (the_margin props) 1 * 2)
          \<and> (doc_image doc = None \<longleftrightarrow> p_imageSettings props = None)"
    if "QRCodeSVG enc props = Returned doc" for doc
    using QRCodeSVG_Returned_D [OF that] logo_image_None_iff m by fastforce
  have r1: "p_margin (route_props services params) = Some (min (q_margin params) 1)"
    using assms(2) by (simp add: route_props_def route_effectiveMargin_def Let_def)
  have r2: "p_imageSettings (route_props services params) = None \<longleftrightarrow>
          (\<exists>plan. route_workspacePlan services params = Some plan \<and> plan \<noteq> ''free'')"
    using assms(2,3) getQRCodeLogo_hidden [OF assms(3), of params "q_logo params"]
    by (auto simp: route_props_def route_effectiveHideLogo_def Let_def split: option.splits)
  have r3: "i_src settings = DUB_QR_LOGO services"
    if "p_imageSettings (route_props services params) = Some settings" for settings
    using that assms(2,3) getQRCodeLogo_hidden [OF assms(3), of params "q_logo params"]
    by (auto simp: route_props_def route_effectiveHideLogo_def Let_def
        split: option.splits if_splits)
  show ?thesis using m d r1 r2 r3 by blast
qed


theorem micro_margin_and_logo_witness:
  "effectiveMargin
     \<lparr>p_value = ''https://dub.sh/x'', p_size = None, p_level = None, p_bgColor = None,
      p_fgColor = None, p_margin = Some 2, p_isOGContext = None, p_imageSettings = None,
      p_qrType = Some ''micro'', p_qrStyle = None\<rparr> = 1
   \<and> p_margin (route_props
        \<lparr>getShortLinkViaEdge = (\<lambda>k. Some \<lparr>sl_projectId = ''ws_1'', sl_domain = ''dub.sh''\<rparr>),
         getWorkspaceViaEdge = (\<lambda>i. Some \<lparr>ws_plan = Some ''pro'', ws_logo = None\<rparr>),
         getDomainViaEdge = (\<lambda>d. None), isDubDomain = (\<lambda>d. True),
         DUB_QR_LOGO = ''https://assets.dub.co/logo.png'',
         ratelimitOrThrow = (None :: unit option),
         encodeText = (\<lambda>v l. Inr [[True]])\<rparr>
        \<lparr>q_logo = None, q_url = ''https://dub.sh/x'', q_size = 600, q_level = ''L'',
         q_fgColor = ''#000000'', q_bgColor = ''#FFFFFF'', q_margin = 2, q_hideLogo = False,
         q_qrType = ''micro'', q_dotStyle = ''square'', q_cornerStyle = ''square'',
         q_gradientDirection = ''horizontal'', q_gradientStartColor = ''#8A2BE2'',
         q_gradientEndColor = ''#00CED1''\<rparr>) = Some 1
   \<and> p_imageSettings (route_props
        \<lparr>getShortLinkViaEdge = (\<lambda>k. Some \<lparr>sl_projectId = ''ws_1'', sl_domain = ''dub.sh''\<rparr>),
         getWorkspaceViaEdge = (\<lambda>i. Some \<lparr>ws_plan = Some ''pro'', ws_logo = None\<rparr>),
         getDomainViaEdge = (\<lambda>d. None), isDubDomain = (\<lambda>d. True),
         DUB_QR_LOGO = ''https://assets.dub.co/logo.png'',
         ratelimitOrThrow = (None :: unit option),
         encodeText = (\<lambda>v l. Inr [[True]])\<rparr>
        \<lparr>q_logo = None, q_url = ''https://dub.sh/x'', q_size = 600, q_level = ''L'',
         q_fgColor = ''#000000'', q_bgColor = ''#FFFFFF'', q_margin = 2, q_hideLogo = False,
         q_qrType = ''micro'', q_dotStyle = ''square'', q_cornerStyle = ''square'',
         q_gradientDirection = ''horizontal'', q_gradientStartColor = ''#8A2BE2'',
         q_gradientEndColor = ''#00CED1''\<rparr>) = None"
  using micro_margin_and_logo [of
     "\<lparr>p_value = ''https://dub.sh/x'', p_size = None, p_level = None, p_bgColor = None,
      p_fgColor = None, p_margin = Some 2, p_isOGContext = None, p_imageSettings = None,
      p_qrType = Some ''micro'', p_qrStyle = None\<rparr>"
     "\<lparr>q_logo = None, q_url = ''https://dub.sh/x'', q_size = 600, q_level = ''L'',
         q_fgColor = ''#000000'', q_bgColor = ''#FFFFFF'', q_margin = 2, q_hideLogo = False,
         q_qrType = ''micro'', q_dotStyle = ''square'', q_cornerStyle = ''square'',
         q_gradientDirection = ''horizontal'', q_gradientStartColor = ''#8A2BE2'',
         q_gradientEndColor = ''#00CED1''\<rparr>"
     "\<lparr>getShortLinkViaEdge = (\<lambda>k. Some \<lparr>sl_projectId = ''ws_1'', sl_domain = ''dub.sh''\<rparr>),
         getWorkspaceViaEdge = (\<lambda>i. Some \<lparr>ws_plan = Some ''pro'', ws_logo = None\<rparr>),
         getDomainViaEdge = (\<lambda>d. None), isDubDomain = (\<lambda>d. True),
         DUB_QR_LOGO = ''https://assets.dub.co/logo.png'',
         ratelimitOrThrow = (None :: unit option),
         encodeText = (\<lambda>v l. Inr [[True]])\<rparr>"
     "\<lambda>v l. (Inr [[True]] :: unit + Modules)"]
  by (simp add: the_qrType_def the_margin_def route_workspacePlan_def truthy_def)

text \<open>
  The claim as stated has no logo composited for \<^verbatim>\<open>micro\<close> even when image settings are
  supplied. \<^verbatim>\<open>QRCodeSVG\<close> with the type \<^verbatim>\<open>micro\<close> and image settings returns a document with the
  logo element.
\<close>

theorem micro_logo_counterexample:
  "(case QRCodeSVG (\<lambda>v l. (Inr (replicate 21 (replicate 21 True)) :: unit + Modules))
      \<lparr>p_value = ''https://dub.sh/x'', p_size = Some 210, p_level = None, p_bgColor = None,
       p_fgColor = None, p_margin = Some 2, p_isOGContext = None,
       p_imageSettings = Some \<lparr>i_src = ''logo.png'', i_height = 50, i_width = 50,
          i_excavate = False, i_x = None, i_y = None\<rparr>,
       p_qrType = Some ''micro'', p_qrStyle = None\<rparr> of
      Returned doc \<Rightarrow> doc_image doc = Some (SvgImage ''logo.png'' 5 5 9 9)
    | Thrown e \<Rightarrow> False
    | Unmodelled \<Rightarrow> False)"
  by (simp add: QRCodeSVG_def Let_def getImageSettings_def logo_image_def the_size_def
       the_isOGContext_def effectiveMargin_def the_qrType_def the_margin_def
       useStyledRendering_def)


subsection \<open>Loops over indexed arrays\<close>

lemma map_enumerate_nth:
  "map (\<lambda>(i, x). f i x) (enumerate 0 xs) = map (\<lambda>i. f i (xs ! i)) [0..<length xs]"
  by (rule nth_equalityI) (simp_all add: nth_enumerate_eq)

lemma foldl_append_each:
  "foldl (\<lambda>acc a. acc @ f a) acc xs = acc @ concat (map f xs)"
  by (induction xs arbitrary: acc) simp_all


subsection \<open>Excavation\<close>

lemma excavate_row_cells:
  "length (excavate_row e row) = length row"
  "x < length row \<Longrightarrow>
     excavate_row e row ! x = (if e_x e \<le> real x \<and> real x < e_x e + e_w e then False else row ! x)"
  by (auto simp: excavate_row_def nth_enumerate_eq)

lemma excavateModules_cells:
  "length (excavateModules M e) = length M
   \<and> (\<forall>y < length M. length (excavateModules M e ! y) = length (M ! y)
        \<and> (\<forall>x < length (M ! y).
              excavateModules M e ! y ! x =
                (if e_x e \<le> real x \<and> real x < e_x e + e_w e
                    \<and> e_y e \<le> real y \<and> real y < e_y e + e_h e
                 then False else M ! y ! x)))"
  by (auto simp: excavateModules_def nth_enumerate_eq excavate_row_cells)

lemma excavate_step_pair:
  "excavate_step e (h, out) (y, r) =
     (if real y < e_y e \<or> real y \<ge> e_y e + e_h e then (h, out @ [r])
      else (h\<lparr>row_arrays := row_arrays h @ [excavate_row e (row_arrays h ! r)]\<rparr>,
            out @ [length (row_arrays h)]))"
  by (simp add: excavate_step_def alloc_row_def)

lemma excavate_fold:
  assumes "\<forall>r\<in>set rs. r < length (row_arrays h0)"
  shows "\<exists>new outs.
      foldl (excavate_step e) (h0, out0) (enumerate k rs)
        = (h0\<lparr>row_arrays := row_arrays h0 @ new\<rparr>, out0 @ outs)
      \<and> (\<forall>r\<in>set outs. r < length (row_arrays h0 @ new))
      \<and> map (\<lambda>r. (row_arrays h0 @ new) ! r) outs =
          map (\<lambda>(y, r). if real y < e_y e \<or> real y \<ge> e_y e + e_h e then row_arrays h0 ! r
                        else excavate_row e (row_arrays h0 ! r))
              (enumerate k rs)"
  using assms
proof (induction rs arbitrary: h0 out0 k)
  case Nil
  show ?case by (rule exI [of _ "[]"], rule exI [of _ "[]"]) simp
next
  case (Cons r rs)
  show ?case
  proof (cases "real k < e_y e \<or> real k \<ge> e_y e + e_h e")
    case True
    from Cons.prems have "\<forall>r\<in>set rs. r < length (row_arrays h0)" by simp
    from Cons.IH [OF this, of "out0 @ [r]" "Suc k"]
    obtain new outs where
      f: "foldl (excavate_step e) (h0, out0 @ [r]) (enumerate (Suc k) rs)
            = (h0\<lparr>row_arrays := row_arrays h0 @ new\<rparr>, (out0 @ [r]) @ outs)"
      and v: "\<forall>r\<in>set outs. r < length (row_arrays h0 @ new)"
      and m: "map (\<lambda>r. (row_arrays h0 @ new) ! r) outs =
          map (\<lambda>(y, r). if real y < e_y e \<or> real y \<ge> e_y e + e_h e then row_arrays h0 ! r
                        else excavate_row e (row_arrays h0 ! r))
              (enumerate (Suc k) rs)"
      by blast
    have r: "r < length (row_arrays h0)" using Cons.prems by simp
    show ?thesis
      apply (rule exI [of _ new], rule exI [of _ "r # outs"])
      using True f v m r
      by (simp add: excavate_step_pair nth_append)
  next
    case False
    let ?row = "excavate_row e (row_arrays h0 ! r)"
    let ?h1 = "h0\<lparr>row_arrays := row_arrays h0 @ [?row]\<rparr>"
    from Cons.prems have "\<forall>r\<in>set rs. r < length (row_arrays ?h1)" by auto
    from Cons.IH [OF this, of "out0 @ [length (row_arrays h0)]" "Suc k"]
    obtain new outs where
      f: "foldl (excavate_step e) (?h1, out0 @ [length (row_arrays h0)]) (enumerate (Suc k) rs)
            = (?h1\<lparr>row_arrays := row_arrays ?h1 @ new\<rparr>, (out0 @ [length (row_arrays h0)]) @ outs)"
      and v: "\<forall>r\<in>set outs. r < length (row_arrays ?h1 @ new)"
      and m: "map (\<lambda>r. (row_arrays ?h1 @ new) ! r) outs =
          map (\<lambda>(y, r). if real y < e_y e \<or> real y \<ge> e_y e + e_h e then row_arrays ?h1 ! r
                        else excavate_row e (row_arrays ?h1 ! r))
              (enumerate (Suc k) rs)"
      by blast
    have m': "map (\<lambda>(y, r). if real y < e_y e \<or> real y \<ge> e_y e + e_h e then row_arrays ?h1 ! r
                        else excavate_row e (row_arrays ?h1 ! r))
              (enumerate (Suc k) rs)
            = map (\<lambda>(y, r). if real y < e_y e \<or> real y \<ge> e_y e + e_h e then row_arrays h0 ! r
                        else excavate_row e (row_arrays h0 ! r))
              (enumerate (Suc k) rs)"
      using Cons.prems by (auto simp: nth_append in_set_enumerate_eq)
    show ?thesis
      apply (rule exI [of _ "?row # new"], rule exI [of _ "length (row_arrays h0) # outs"])
      using False f v m m'
      by (simp add: excavate_step_pair nth_append)
  qed
qed


lemma excavateModules_map:
  "excavateModules (map f rs) e =
     map (\<lambda>(y, r). if real y < e_y e \<or> real y \<ge> e_y e + e_h e then f r
                   else excavate_row e (f r))
         (enumerate 0 rs)"
  unfolding excavateModules_def
  by (rule nth_equalityI) (simp_all add: nth_enumerate_eq)

lemma excavateModules_store_result:
  assumes "valid_matrix h a"
  shows "\<exists>new outs.
      excavateModules_store h a e =
        (h\<lparr>row_arrays := row_arrays h @ new,
           outer_arrays := outer_arrays h @ [outer_arrays h ! a, outs]\<rparr>,
         Suc (length (outer_arrays h)))
      \<and> (\<forall>r\<in>set outs. r < length (row_arrays h @ new))
      \<and> map (\<lambda>r. (row_arrays h @ new) ! r) outs = excavateModules (matrix_at h a) e"
proof -
  let ?refs = "outer_arrays h ! a"
  let ?h1 = "h\<lparr>outer_arrays := outer_arrays h @ [?refs]\<rparr>"
  from assms have "\<forall>r\<in>set ?refs. r < length (row_arrays ?h1)"
    by (simp add: valid_matrix_def list_all_iff)
  from excavate_fold [OF this, of e "[]" 0]
  obtain new outs where
    f: "foldl (excavate_step e) (?h1, []) (enumerate 0 ?refs)
          = (?h1\<lparr>row_arrays := row_arrays ?h1 @ new\<rparr>, [] @ outs)"
    and v: "\<forall>r\<in>set outs. r < length (row_arrays ?h1 @ new)"
    and m: "map (\<lambda>r. (row_arrays ?h1 @ new) ! r) outs =
          map (\<lambda>(y, r). if real y < e_y e \<or> real y \<ge> e_y e + e_h e then row_arrays ?h1 ! r
                        else excavate_row e (row_arrays ?h1 ! r))
              (enumerate 0 ?refs)"
    by blast
  have "excavateModules_store h a e =
        (h\<lparr>row_arrays := row_arrays h @ new,
           outer_arrays := outer_arrays h @ [?refs, outs]\<rparr>,
         Suc (length (outer_arrays h)))"
    using f by (simp add: excavateModules_store_def alloc_outer_def)
  moreover have rh: "row_arrays ?h1 = row_arrays h"
    by simp
  have "map (\<lambda>r. (row_arrays h @ new) ! r) outs = excavateModules (matrix_at h a) e"
    using m [unfolded rh] by (simp add: matrix_at_def excavateModules_map)
  moreover note v [unfolded rh]
  ultimately show ?thesis by blast
qed


text \<open>
  Claim C4. The result of \<^verbatim>\<open>excavateModules\<close> has the dimensions of the matrix; a cell inside
  the rectangle (\<open>x \<le> cx < x + w\<close> and \<open>y \<le> cy < y + h\<close>) is light and every other cell has
  the value it has in the matrix. On the store: every array that existed before the call is
  unchanged, so the input matrix is not mutated, and the address returned denotes the
  excavated matrix.
\<close>

theorem excavateModules_frame:
  "length (excavateModules M e) = length M
   \<and> (\<forall>y < length M. length (excavateModules M e ! y) = length (M ! y)
        \<and> (\<forall>x < length (M ! y).
              excavateModules M e ! y ! x =
                (if e_x e \<le> real x \<and> real x < e_x e + e_w e
                    \<and> e_y e \<le> real y \<and> real y < e_y e + e_h e
                 then False else M ! y ! x)))
   \<and> (valid_matrix h a \<longrightarrow>
        (case excavateModules_store h a e of
           (h', b) \<Rightarrow>
             take (length (row_arrays h)) (row_arrays h') = row_arrays h
           \<and> take (length (outer_arrays h)) (outer_arrays h') = outer_arrays h
           \<and> matrix_at h' a = matrix_at h a
           \<and> valid_matrix h' b
           \<and> matrix_at h' b = excavateModules (matrix_at h a) e))"
proof -
  have "case excavateModules_store h a e of
           (h', b) \<Rightarrow>
             take (length (row_arrays h)) (row_arrays h') = row_arrays h
           \<and> take (length (outer_arrays h)) (outer_arrays h') = outer_arrays h
           \<and> matrix_at h' a = matrix_at h a
           \<and> valid_matrix h' b
           \<and> matrix_at h' b = excavateModules (matrix_at h a) e"
    if valid: "valid_matrix h a"
  proof -
    from excavateModules_store_result [OF valid, of e]
    obtain new outs where
      r: "excavateModules_store h a e =
        (h\<lparr>row_arrays := row_arrays h @ new,
           outer_arrays := outer_arrays h @ [outer_arrays h ! a, outs]\<rparr>,
         Suc (length (outer_arrays h)))"
      and v: "\<forall>r\<in>set outs. r < length (row_arrays h @ new)"
      and m: "map (\<lambda>r. (row_arrays h @ new) ! r) outs = excavateModules (matrix_at h a) e"
      by blast
    have a: "a < length (outer_arrays h)" and rs: "\<forall>r\<in>set (outer_arrays h ! a). r < length (row_arrays h)"
      using valid by (simp_all add: valid_matrix_def list_all_iff)
    have same: "matrix_at (h\<lparr>row_arrays := row_arrays h @ new,
           outer_arrays := outer_arrays h @ [outer_arrays h ! a, outs]\<rparr>) a = matrix_at h a"
      using a rs by (simp add: matrix_at_def nth_append)
    have nth2: "(outer_arrays h @ [outer_arrays h ! a, outs]) ! Suc (length (outer_arrays h)) = outs"
      by (simp add: nth_append)
    show ?thesis
      using r v m same nth2
      by (simp add: valid_matrix_def list_all_iff matrix_at_def)
  qed
  then show ?thesis
    using excavateModules_cells [of M e] by blast
qed


theorem excavateModules_frame_witness:
  "excavateModules [[True, True, True], [True, True, True], [True, True, True]]
      \<lparr>e_x = 1, e_y = 1, e_w = 1, e_h = 1\<rparr>
     = [[True, True, True], [True, False, True], [True, True, True]]
   \<and> valid_matrix \<lparr>row_arrays = [[True, True, True], [True, True, True], [True, True, True]],
                    outer_arrays = [[0, 1, 2]]\<rparr> 0
   \<and> excavateModules_store
        \<lparr>row_arrays = [[True, True, True], [True, True, True], [True, True, True]],
         outer_arrays = [[0, 1, 2]]\<rparr> 0 \<lparr>e_x = 1, e_y = 1, e_w = 1, e_h = 1\<rparr>
     = (\<lparr>row_arrays = [[True, True, True], [True, True, True], [True, True, True],
                        [True, False, True]],
         outer_arrays = [[0, 1, 2], [0, 1, 2], [0, 3, 2]]\<rparr>, 2)"
  using excavateModules_frame [of
      "[[True, True, True], [True, True, True], [True, True, True]]"
      "\<lparr>e_x = 1, e_y = 1, e_w = 1, e_h = 1\<rparr>"
      "\<lparr>row_arrays = [[True, True, True], [True, True, True], [True, True, True]],
         outer_arrays = [[0, 1, 2]]\<rparr>" 0]
  by (simp add: excavateModules_def excavate_row_def valid_matrix_def excavateModules_store_def
      alloc_outer_def excavate_step_pair)


subsection \<open>Finder modules\<close>

lemma isFinderModule_blocks:
  "isFinderModule N x y \<longleftrightarrow>
     (0 \<le> x \<and> x < 7 \<and> 0 \<le> y \<and> y < 7)
     \<or> (N - 7 \<le> x \<and> x < N \<and> 0 \<le> y \<and> y < 7)
     \<or> (0 \<le> x \<and> x < 7 \<and> N - 7 \<le> y \<and> y < N)"
  by (auto simp: isFinderModule_def finderPositions_def)

lemma styled_cell_eq:
  "styled_cell (int (length modules)) margin d c y elements (x, cell) =
     elements @ (if cell then [styled_shape modules margin d c x y] else [])"
  by (simp add: styled_cell_def styled_shape_def isFinderModule_blocks Let_def)

lemma styled_row_eq:
  "styled_row (int (length modules)) margin d c elements (y, row) =
     elements @ concat (map (\<lambda>x. if row ! x then [styled_shape modules margin d c x y] else [])
                          [0..<length row])"
proof -
  have "styled_cell (int (length modules)) margin d c y =
        (\<lambda>acc a. acc @ (case a of (x, cell) \<Rightarrow> if cell then [styled_shape modules margin d c x y] else []))"
    by (auto simp: fun_eq_iff styled_cell_eq)
  then show ?thesis
    by (simp add: styled_row_def foldl_append_each map_enumerate_nth)
qed


text \<open>
  Claim C7. \<^verbatim>\<open>generateStyledModules\<close> returns, in row order, one shape for every dark module:
  the corner style when the module lies in one of the three 7\<times>7 blocks, the dot style
  otherwise. For a side of at least 21 the modules at \<open>(0,0)\<close>, \<open>(N-1,0)\<close> and \<open>(0,N-1)\<close> are
  finder modules, and for a side above 14 the module at \<open>(\<lfloor>N/2\<rfloor>, \<lfloor>N/2\<rfloor>)\<close> is not.
\<close>

theorem generateStyledModules_finder:
  "generateStyledModules modules margin dotStyle_arg cornerStyle_arg =
     concat (map (\<lambda>y. concat (map (\<lambda>x. if modules ! y ! x
                                         then [styled_shape modules margin
                                                 (case dotStyle_arg of None \<Rightarrow> ''square'' | Some s \<Rightarrow> s)
                                                 (case cornerStyle_arg of None \<Rightarrow> ''square'' | Some s \<Rightarrow> s)
                                                 x y]
                                         else [])
                                 [0..<length (modules ! y)]))
                 [0..<length modules])
   \<and> (21 \<le> N \<longrightarrow> isFinderModule N 0 0 \<and> isFinderModule N (N - 1) 0 \<and> isFinderModule N 0 (N - 1))
   \<and> (14 < N \<longrightarrow> \<not> isFinderModule N (N div 2) (N div 2))"
proof -
  let ?d = "case dotStyle_arg of None \<Rightarrow> ''square'' | Some s \<Rightarrow> s"
  let ?c = "case cornerStyle_arg of None \<Rightarrow> ''square'' | Some s \<Rightarrow> s"
  have "styled_row (int (length modules)) margin ?d ?c =
        (\<lambda>acc a. acc @ (case a of (y, row) \<Rightarrow>
           concat (map (\<lambda>x. if row ! x then [styled_shape modules margin ?d ?c x y] else [])
                          [0..<length row])))"
    by (auto simp: fun_eq_iff styled_row_eq)
  then have "generateStyledModules modules margin dotStyle_arg cornerStyle_arg =
     concat (map (\<lambda>y. concat (map (\<lambda>x. if modules ! y ! x
                                         then [styled_shape modules margin ?d ?c x y]
                                         else [])
                                 [0..<length (modules ! y)]))
                 [0..<length modules])"
    by (simp add: generateStyledModules_def foldl_append_each map_enumerate_nth)
  moreover have "21 \<le> N \<longrightarrow> isFinderModule N 0 0 \<and> isFinderModule N (N - 1) 0 \<and> isFinderModule N 0 (N - 1)"
    by (auto simp: isFinderModule_blocks)
  moreover have "14 < N \<longrightarrow> \<not> isFinderModule N (N div 2) (N div 2)"
    by (auto simp: isFinderModule_blocks)
  ultimately show ?thesis by blast
qed

theorem generateStyledModules_finder_witness:
  "generateStyledModules [[True, False], [False, True]] 2 (Some ''circle'') (Some ''rounded'') =
     [Rect ''0-0'' 2 2 1 1 (Some (25 / 100)) (Some (25 / 100)),
      Rect ''1-1'' 3 3 1 1 (Some (25 / 100)) (Some (25 / 100))]
   \<and> isFinderModule 21 0 0 \<and> isFinderModule 21 20 0 \<and> isFinderModule 21 0 20
   \<and> \<not> isFinderModule 21 10 10"
  using generateStyledModules_finder [of "[[True, False], [False, True]]" 2 "Some ''circle''"
      "Some ''rounded''" 21]
  by (simp add: styled_shape_def renderCornerModule_def show_nat.simps digit_char_def)


subsection \<open>Decimal output\<close>

lemma show_nat_one: "show_nat (Suc 0) = ''1''"
  by (simp add: show_nat.simps [of "Suc 0"] digit_char_def)


subsection \<open>The default dot style\<close>











subsection \<open>The path encoder\<close>

text \<open>
  The edge cases of the scan: a single dark module, a run that reaches the last column (closed
  from its start column), a lone dark cell at the end of a row after a closed run, a run
  closed by a light last cell, and a row without dark cells.
\<close>

lemma show_small:
  "show_int 0 = ''0''" "show_int 1 = ''1''" "show_int 2 = ''2''" "show_int 3 = ''3''"
  by (simp_all add: show_int_def show_nat.simps digit_char_def)

lemma generatePath_edge_cases:
  "generatePath [[True]] 0 = ''M0,0 h1v1H0z''"
  "generatePath [[False, True, True]] 1 = ''M2,1 h2v1H2z''"
  "generatePath [[True, False, True]] 0 = ''M0 0h1v1H0zM2,0 h1v1H2z''"
  "generatePath [[True, True, False]] 0 = ''M0 0h2v1H0z''"
  "generatePath [[False, False]] 0 = ''''"
  by (simp_all add: generatePath_def path_row_def op_single_def op_at_end_def op_closed_def show_small)

lemma digit_of_digit_char: "d < 10 \<Longrightarrow> digit_of (digit_char d) = Some d"
proof -
  assume "d < 10"
  then have "d \<in> {0, 1, 2, 3, 4, 5, 6, 7, 8, 9}" by auto
  then show ?thesis
    by (auto simp: digit_of_def digit_char_def)
qed

lemma lex_digit:
  "d < 10 \<Longrightarrow> lex_char (Some (toks, sc)) (digit_char d) =
     Some (toks, case sc of Idle \<Rightarrow> Digits False d | Minus \<Rightarrow> Digits True d
                          | Digits negative v \<Rightarrow> Digits negative (10 * v + d))"
  by (simp add: lex_char_def digit_of_digit_char)

lemma lex_show_nat:
  "sc = Idle \<or> sc = Minus \<Longrightarrow>
   foldl lex_char (Some (toks, sc)) (show_nat n) = Some (toks, Digits (sc = Minus) n)"
proof (induction n rule: show_nat.induct)
  case (1 n)
  show ?case
  proof (cases "n < 10")
    case True
    then show ?thesis
      using 1(2) by (auto simp: show_nat.simps [of n] lex_digit)
  next
    case False
    then have "foldl lex_char (Some (toks, sc)) (show_nat (n div 10)) =
        Some (toks, Digits (sc = Minus) (n div 10))"
      using 1 by simp
    then show ?thesis
      using False by (simp add: show_nat.simps [of n] lex_digit)
  qed
qed

lemma lex_minus: "lex_char (Some (toks, Idle)) CHR ''-'' = Some (toks, Minus)"
  by (simp add: lex_char_def digit_of_def end_number_def)

lemma lex_show_int:
  "foldl lex_char (Some (toks, Idle)) (show_int i) = Some (toks, Digits (i < 0) (nat \<bar>i\<bar>))"
  by (simp add: show_int_def lex_minus lex_show_nat)

lemma number_of_abs: "number_of (i < 0) (nat \<bar>i\<bar>) = i"
  by (simp add: number_of_def)

lemma lex_letter:
  "c \<in> set ''MhvHz'' \<Longrightarrow>
   lex_char (Some (toks, Idle)) c = Some (toks @ [Letter c], Idle)"
  "c \<in> set ''MhvHz'' \<Longrightarrow>
   lex_char (Some (toks, Digits (i < 0) (nat \<bar>i\<bar>))) c = Some (toks @ [Number i, Letter c], Idle)"
  by (auto simp: lex_char_def digit_of_def end_number_def number_of_abs)

lemma lex_separator:
  "c = CHR '' '' \<or> c = CHR '','' \<Longrightarrow>
   lex_char (Some (toks, Idle)) c = Some (toks, Idle)"
  "c = CHR '' '' \<or> c = CHR '','' \<Longrightarrow>
   lex_char (Some (toks, Digits (i < 0) (nat \<bar>i\<bar>))) c = Some (toks @ [Number i], Idle)"
  by (auto simp: lex_char_def digit_of_def end_number_def number_of_abs)

lemma lex_one:
  "lex_char (Some (toks, Idle)) CHR ''1'' = Some (toks, Digits False 1)"
  "c \<in> set ''MhvHz'' \<Longrightarrow>
   lex_char (Some (toks, Digits False 1)) c = Some (toks @ [Number 1, Letter c], Idle)"
  by (auto simp: lex_char_def digit_of_def end_number_def number_of_def)

lemma lex_int_letter:
  "c \<in> set ''MhvHz'' \<Longrightarrow>
   foldl lex_char (Some (toks, Idle)) (show_int i @ c # rest) =
     foldl lex_char (Some (toks @ [Number i, Letter c], Idle)) rest"
  by (simp only: foldl_append foldl_Cons lex_show_int lex_letter)

lemma lex_int_separator:
  "c = CHR '' '' \<or> c = CHR '','' \<Longrightarrow>
   foldl lex_char (Some (toks, Idle)) (show_int i @ c # rest) =
     foldl lex_char (Some (toks @ [Number i], Idle)) rest"
  by (simp only: foldl_append foldl_Cons lex_show_int lex_separator)

lemma lex_one_letter:
  "c \<in> set ''MhvHz'' \<Longrightarrow>
   foldl lex_char (Some (toks, Idle)) (CHR ''1'' # c # rest) =
     foldl lex_char (Some (toks @ [Number 1, Letter c], Idle)) rest"
  by (simp only: foldl_Cons lex_one)

lemma lex_letter_Cons:
  "c \<in> set ''MhvHz'' \<Longrightarrow>
   foldl lex_char (Some (toks, Idle)) (c # rest) =
     foldl lex_char (Some (toks @ [Letter c], Idle)) rest"
  by (simp only: foldl_Cons lex_letter)

lemmas lex_rules = lex_int_letter lex_int_separator lex_one_letter lex_letter_Cons

lemma lex_op_closed:
  "foldl lex_char (Some (toks, Idle)) (op_closed s y x m) =
     Some (toks @ rect_tokens (int s + m, int y + m, int x - int s), Idle)"
  by (simp add: op_closed_def lex_rules rect_tokens_def del: foldl_append foldl_Cons)

lemma lex_op_at_end:
  "foldl lex_char (Some (toks, Idle)) (op_at_end s y x m) =
     Some (toks @ rect_tokens (int s + m, int y + m, int x + 1 - int s), Idle)"
  by (simp add: op_at_end_def lex_rules rect_tokens_def del: foldl_append foldl_Cons)

lemma lex_op_single:
  "foldl lex_char (Some (toks, Idle)) (op_single x y m) =
     Some (toks @ rect_tokens (int x + m, int y + m, 1), Idle)"
  by (simp add: op_single_def lex_rules rect_tokens_def del: foldl_append foldl_Cons)


lemma op_single_at_end: "op_single x y m = op_at_end x y x m"
  by (simp add: op_single_def op_at_end_def show_int_def show_nat_one)

lemma dark_prefix_split:
  assumes "s \<le> k" and "\<forall>i. s \<le> i \<and> i < k \<longrightarrow> row ! i"
  shows "filter (\<lambda>x. row ! x) [0..<k] = filter (\<lambda>x. row ! x) [0..<s] @ [s..<k]"
proof -
  have "[0..<k] = [0..<s] @ [s..<k]"
    using assms(1) by (metis le_add_diff_inverse upt_add_eq_append zero_le)
  moreover have "filter (\<lambda>x. row ! x) [s..<k] = [s..<k]"
    using assms(2) by (simp add: filter_id_conv)
  ultimately show ?thesis by simp
qed

lemma path_cell_inner:
  assumes "row_inv row k runs st" and "Suc k < length row"
  shows "\<exists>runs' st'.
     path_cell m y (length row) (ops0 @ map (run_op m y) runs, st) (k, row ! k)
       = (ops0 @ map (run_op m y) runs', st')
     \<and> row_inv row (Suc k) runs' st'"
proof (cases st)
  case None
  show ?thesis
  proof (cases "row ! k")
    case True
    have "path_cell m y (length row) (ops0 @ map (run_op m y) runs, st) (k, row ! k)
          = (ops0 @ map (run_op m y) runs, Some k)"
      using None True assms(2) by simp
    moreover have "row_inv row (Suc k) runs (Some k)"
      using assms(1) None True by (auto simp: row_inv_def le_less_Suc_eq)
    ultimately show ?thesis by blast
  next
    case False
    have "path_cell m y (length row) (ops0 @ map (run_op m y) runs, st) (k, row ! k)
          = (ops0 @ map (run_op m y) runs, None)"
      using None False assms(2) by simp
    moreover have "row_inv row (Suc k) runs None"
      using assms(1) None False by (simp add: row_inv_def)
    ultimately show ?thesis by blast
  qed
next
  case (Some s)
  show ?thesis
  proof (cases "row ! k")
    case True
    have "path_cell m y (length row) (ops0 @ map (run_op m y) runs, st) (k, row ! k)
          = (ops0 @ map (run_op m y) runs, Some s)"
      using Some True assms(2) by simp
    moreover have "row_inv row (Suc k) runs (Some s)"
      using assms(1) Some True by (auto simp: row_inv_def less_Suc_eq)
    ultimately show ?thesis by blast
  next
    case False
    have "path_cell m y (length row) (ops0 @ map (run_op m y) runs, st) (k, row ! k)
          = (ops0 @ map (run_op m y) (runs @ [(True, s, k)]), None)"
      using Some False by (simp add: run_op_def)
    moreover have "row_inv row (Suc k) (runs @ [(True, s, k)]) None"
      using assms(1) Some False dark_prefix_split [of s k row]
      by (simp add: row_inv_def run_ok_def run_cells_def)
    ultimately show ?thesis by blast
  qed
qed


lemma enumerate_take_Suc:
  "k < length row \<Longrightarrow>
   enumerate 0 (take (Suc k) row) = enumerate 0 (take k row) @ [(k, row ! k)]"
  by (simp add: take_Suc_conv_app_nth enumerate_append_eq)

lemma path_cell_prefix:
  assumes "k < length row"
  shows "\<exists>runs st.
     foldl (path_cell m y (length row)) (ops0, None) (enumerate 0 (take k row))
       = (ops0 @ map (run_op m y) runs, st)
     \<and> row_inv row k runs st"
  using assms
proof (induction k)
  case 0
  have "row_inv row 0 [] None" by (simp add: row_inv_def)
  then show ?case by (intro exI [of _ "[]"] exI [of _ None]) simp
next
  case (Suc k)
  then obtain runs st where
    f: "foldl (path_cell m y (length row)) (ops0, None) (enumerate 0 (take k row))
          = (ops0 @ map (run_op m y) runs, st)"
    and i: "row_inv row k runs st"
    by auto
  from path_cell_inner [OF i Suc.prems, of m y ops0]
  obtain runs' st' where
    "path_cell m y (length row) (ops0 @ map (run_op m y) runs, st) (k, row ! k)
       = (ops0 @ map (run_op m y) runs', st')"
    and "row_inv row (Suc k) runs' st'"
    by blast
  then show ?case
    using f Suc.prems by (auto simp: enumerate_take_Suc)
qed

lemma path_cell_last:
  assumes "row_inv row k runs st" and "Suc k = length row"
  shows "\<exists>runs'.
     fst (path_cell m y (length row) (ops0 @ map (run_op m y) runs, st) (k, row ! k))
       = ops0 @ map (run_op m y) runs'
     \<and> list_all run_ok runs'
     \<and> concat (map run_cells runs') = filter (\<lambda>x. row ! x) [0..<length row]"
proof (cases st)
  case None
  show ?thesis
  proof (cases "row ! k")
    case True
    have "fst (path_cell m y (length row) (ops0 @ map (run_op m y) runs, st) (k, row ! k))
          = ops0 @ map (run_op m y) (runs @ [(False, k, Suc k)])"
      using None True assms(2) [symmetric] by (simp add: run_op_def op_single_at_end)
    moreover have "list_all run_ok (runs @ [(False, k, Suc k)])
        \<and> concat (map run_cells (runs @ [(False, k, Suc k)])) = filter (\<lambda>x. row ! x) [0..<length row]"
      using assms(1) None True assms(2) [symmetric]
      by (simp add: row_inv_def run_ok_def run_cells_def)
    ultimately show ?thesis by blast
  next
    case False
    have "fst (path_cell m y (length row) (ops0 @ map (run_op m y) runs, st) (k, row ! k))
          = ops0 @ map (run_op m y) runs"
      using None False assms(2) [symmetric] by simp
    moreover have "list_all run_ok runs
        \<and> concat (map run_cells runs) = filter (\<lambda>x. row ! x) [0..<length row]"
      using assms(1) None False assms(2) [symmetric] by (simp add: row_inv_def)
    ultimately show ?thesis by blast
  qed
next
  case (Some s)
  show ?thesis
  proof (cases "row ! k")
    case True
    have "fst (path_cell m y (length row) (ops0 @ map (run_op m y) runs, st) (k, row ! k))
          = ops0 @ map (run_op m y) (runs @ [(False, s, Suc k)])"
      using Some True assms(2) [symmetric] by (simp add: run_op_def)
    moreover have "\<forall>i. s \<le> i \<and> i < Suc k \<longrightarrow> row ! i"
      using assms(1) Some True by (auto simp: row_inv_def less_Suc_eq)
    then have "filter (\<lambda>x. row ! x) [0..<Suc k] = filter (\<lambda>x. row ! x) [0..<s] @ [s..<Suc k]"
      using assms(1) Some dark_prefix_split [of s "Suc k" row] by (simp add: row_inv_def)
    then have "list_all run_ok (runs @ [(False, s, Suc k)])
        \<and> concat (map run_cells (runs @ [(False, s, Suc k)])) = filter (\<lambda>x. row ! x) [0..<length row]"
      using assms(1) Some assms(2) [symmetric]
      by (simp add: row_inv_def run_ok_def run_cells_def)
    ultimately show ?thesis by blast
  next
    case False
    have "fst (path_cell m y (length row) (ops0 @ map (run_op m y) runs, st) (k, row ! k))
          = ops0 @ map (run_op m y) (runs @ [(True, s, k)])"
      using Some False by (simp add: run_op_def)
    moreover have "list_all run_ok (runs @ [(True, s, k)])
        \<and> concat (map run_cells (runs @ [(True, s, k)])) = filter (\<lambda>x. row ! x) [0..<length row]"
      using assms(1) Some False assms(2) [symmetric] dark_prefix_split [of s k row]
      by (simp add: row_inv_def run_ok_def run_cells_def)
    ultimately show ?thesis by blast
  qed
qed

lemma path_row_runs:
  "\<exists>runs. path_row m ops0 (y, row) = ops0 @ map (run_op m y) runs
     \<and> list_all run_ok runs
     \<and> concat (map run_cells runs) = filter (\<lambda>x. row ! x) [0..<length row]"
proof (cases "row = []")
  case True
  then show ?thesis
    by (intro exI [of _ "[]"]) (simp add: path_row_def)
next
  case False
  define k where "k = length row - 1"
  have k: "Suc k = length row" and kl: "k < length row"
    using False by (simp_all add: k_def)
  from path_cell_prefix [OF kl, of m y ops0]
  obtain runs st where
    f: "foldl (path_cell m y (length row)) (ops0, None) (enumerate 0 (take k row))
          = (ops0 @ map (run_op m y) runs, st)"
    and i: "row_inv row k runs st"
    by blast
  have "enumerate 0 row = enumerate 0 (take k row) @ [(k, row ! k)]"
    using enumerate_take_Suc [OF kl] k by simp
  then have "path_row m ops0 (y, row) =
      fst (path_cell m y (length row) (ops0 @ map (run_op m y) runs, st) (k, row ! k))"
    using f by (simp add: path_row_def)
  then show ?thesis
    using path_cell_last [OF i k, of m y ops0] by simp
qed


lemma path_rows_runs:
  "\<exists>rs. foldl (path_row m) ops0 (enumerate k rows) = ops0 @ map (located_op m) rs
     \<and> list_all (\<lambda>yr. run_ok (snd yr)) rs
     \<and> concat (map located_cells rs) = dark_list k rows"
proof (induction rows arbitrary: ops0 k)
  case Nil
  show ?case by (intro exI [of _ "[]"]) (simp add: dark_list_def)
next
  case (Cons row rows)
  from path_row_runs [of m ops0 k row]
  obtain runs where
    r: "path_row m ops0 (k, row) = ops0 @ map (run_op m k) runs"
    and ok: "list_all run_ok runs"
    and c: "concat (map run_cells runs) = filter (\<lambda>x. row ! x) [0..<length row]"
    by blast
  from Cons.IH [of "ops0 @ map (run_op m k) runs" "Suc k"]
  obtain rs where
    f: "foldl (path_row m) (ops0 @ map (run_op m k) runs) (enumerate (Suc k) rows)
          = (ops0 @ map (run_op m k) runs) @ map (located_op m) rs"
    and oks: "list_all (\<lambda>yr. run_ok (snd yr)) rs"
    and cs: "concat (map located_cells rs) = dark_list (Suc k) rows"
    by blast
  have "concat (map located_cells (map (Pair k) runs)) = map (\<lambda>x. (x, k)) (concat (map run_cells runs))"
    by (simp add: located_cells_def map_concat comp_def)
  then have "concat (map located_cells (map (Pair k) runs @ rs)) = dark_list k (row # rows)"
    using c cs by (simp add: dark_list_def)
  moreover have "foldl (path_row m) ops0 (enumerate k (row # rows))
      = ops0 @ map (located_op m) (map (Pair k) runs @ rs)"
    using r f by (simp add: located_op_def comp_def)
  moreover have "list_all (\<lambda>yr. run_ok (snd yr)) (map (Pair k) runs @ rs)"
    using ok oks by (auto simp: list_all_iff)
  ultimately show ?case by blast
qed

lemma lex_run_op:
  assumes "run_ok (snd yr)"
  shows "foldl lex_char (Some (toks, Idle)) (located_op m yr) =
     Some (toks @ rect_tokens (run_rect m yr), Idle)"
proof -
  obtain y mid s e where yr: "yr = (y, mid, s, e)" by (cases yr) auto
  then have "s < e" using assms by (simp add: run_ok_def)
  then have "int (e - 1) + 1 - int s = int e - int s" by simp
  then show ?thesis
    by (simp add: yr located_op_def run_op_def run_rect_def lex_op_closed lex_op_at_end)
qed

lemma lex_located:
  "list_all (\<lambda>yr. run_ok (snd yr)) rs \<Longrightarrow>
   foldl lex_char (Some (toks, Idle)) (concat (map (located_op m) rs)) =
     Some (toks @ concat (map (\<lambda>yr. rect_tokens (run_rect m yr)) rs), Idle)"
  by (induction rs arbitrary: toks) (simp_all add: lex_run_op)

lemma commands_of_rect:
  "commands_of (rect_tokens r @ ts) = map_option (\<lambda>cs. rect_cmds r @ cs) (commands_of ts)"
  by (cases r) (simp add: rect_tokens_def rect_cmds_def option.map_comp comp_def)

lemma commands_of_rects:
  "commands_of (concat (map rect_tokens rs)) = Some (concat (map rect_cmds rs))"
  by (induction rs) (simp_all add: commands_of_rect)

lemma draw_rect:
  "length sub \<le> 1 \<Longrightarrow>
   foldl draw (Some (fin, sub)) (rect_cmds r) =
     Some (fin @ [rect_vertices r], [hd (rect_vertices r)])"
  by (cases r) (simp add: rect_cmds_def rect_vertices_def draw_def finish_def)

lemma draw_rects:
  "length sub \<le> 1 \<Longrightarrow>
   \<exists>sub'. length sub' \<le> 1 \<and>
     foldl draw (Some (fin, sub)) (concat (map rect_cmds rs)) =
       Some (fin @ map rect_vertices rs, sub')"
proof (induction rs arbitrary: fin sub)
  case Nil
  then show ?case by auto
next
  case (Cons r rs)
  have "foldl draw (Some (fin, sub)) (rect_cmds r) =
     Some (fin @ [rect_vertices r], [hd (rect_vertices r)])"
    using Cons.prems by (rule draw_rect)
  moreover from Cons.IH [of "[hd (rect_vertices r)]" "fin @ [rect_vertices r]"]
  obtain sub' where "length sub' \<le> 1"
    and "foldl draw (Some (fin @ [rect_vertices r], [hd (rect_vertices r)])) (concat (map rect_cmds rs)) =
       Some ((fin @ [rect_vertices r]) @ map rect_vertices rs, sub')"
    by auto
  ultimately show ?case by auto
qed

lemma subpaths_of_rects:
  "subpaths_of (concat (map rect_cmds rs)) = Some (map rect_vertices rs)"
  using draw_rects [of "[]" "[]" rs]
  by (auto simp: subpaths_of_def finish_def)


lemma path_subpaths_generatePath:
  "\<exists>rs. list_all (\<lambda>yr. run_ok (snd yr)) rs
     \<and> concat (map located_cells rs) = dark_list 0 M
     \<and> path_subpaths (generatePath M m) = Some (map (\<lambda>yr. rect_vertices (run_rect m yr)) rs)"
proof -
  from path_rows_runs [of m "[]" 0 M]
  obtain rs where
    f: "foldl (path_row m) [] (enumerate 0 M) = map (located_op m) rs"
    and ok: "list_all (\<lambda>yr. run_ok (snd yr)) rs"
    and c: "concat (map located_cells rs) = dark_list 0 M"
    by auto
  have "tokens_of (generatePath M m) = Some (concat (map rect_tokens (map (run_rect m) rs)))"
    using f lex_located [OF ok, of "[]" m]
    by (simp add: tokens_of_def generatePath_def end_number_def comp_def)
  then have "path_subpaths (generatePath M m) = Some (map rect_vertices (map (run_rect m) rs))"
    using commands_of_rects [of "map (run_rect m) rs"] subpaths_of_rects [of "map (run_rect m) rs"]
    by (simp add: path_subpaths_def)
  then show ?thesis
    using ok c by (auto simp: comp_def)
qed

lemma rect_winding:
  "0 \<le> w \<Longrightarrow>
   subpath_winding (cx, cy) (rect_vertices (a, b, w)) =
     (if cy = b \<and> a \<le> cx \<and> cx < a + w then - 1 else 0)"
  by (auto simp: subpath_winding_def rect_vertices_def edges_def edge_winding_def)

lemma count_list_distinct:
  "distinct xs \<Longrightarrow> count_list xs x = (if x \<in> set xs then 1 else 0)"
  by (induction xs) auto

lemma count_list_concat:
  "count_list (concat xss) x = sum_list (map (\<lambda>xs. count_list xs x) xss)"
  by (induction xss) simp_all

lemma run_count:
  assumes "s < e"
  shows "count_list (map (shift m) (located_cells (y, mid, s, e))) (cx, cy) =
     (if cy = int y + m \<and> int s + m \<le> cx \<and> cx < int e + m then 1 else 0)"
proof -
  have d: "distinct (map (shift m) (located_cells (y, mid, s, e)))"
    by (auto simp: located_cells_def run_cells_def shift_def distinct_map inj_on_def)
  have "(cx, cy) \<in> set (map (shift m) (located_cells (y, mid, s, e)))
      \<longleftrightarrow> cy = int y + m \<and> int s + m \<le> cx \<and> cx < int e + m"
  proof
    assume "(cx, cy) \<in> set (map (shift m) (located_cells (y, mid, s, e)))"
    then show "cy = int y + m \<and> int s + m \<le> cx \<and> cx < int e + m"
      by (auto simp: located_cells_def run_cells_def shift_def)
  next
    assume a: "cy = int y + m \<and> int s + m \<le> cx \<and> cx < int e + m"
    then have "s \<le> nat (cx - m) \<and> nat (cx - m) < e"
      by linarith
    then have "(nat (cx - m), y) \<in> set (located_cells (y, mid, s, e))"
      by (simp add: located_cells_def run_cells_def image_iff)
    moreover have "shift m (nat (cx - m), y) = (cx, cy)"
      using a by (simp add: shift_def)
    ultimately show "(cx, cy) \<in> set (map (shift m) (located_cells (y, mid, s, e)))"
      by (metis image_eqI set_map)
  qed
  then show ?thesis
    using count_list_distinct [OF d, of "(cx, cy)"] by simp
qed

lemma run_winding:
  assumes "run_ok (snd yr)"
  shows "subpath_winding c (rect_vertices (run_rect m yr)) =
           - int (count_list (map (shift m) (located_cells yr)) c)
       \<and> count_list (map (shift m) (located_cells yr)) c \<le> 1"
proof -
  obtain y mid s e where yr: "yr = (y, mid, s, e)" by (cases yr) auto
  obtain cx cy where c: "c = (cx, cy)" by (cases c) auto
  have se: "s < e" using assms yr by (simp add: run_ok_def)
  then have "0 \<le> int e - int s" by simp
  from rect_winding [OF this, of cx cy "int s + m" "int y + m"] run_count [OF se, of m y mid cx cy]
  show ?thesis
    by (auto simp: yr c run_rect_def)
qed

lemma runs_winding:
  assumes "list_all (\<lambda>yr. run_ok (snd yr)) rs"
  shows "winding c (map (\<lambda>yr. rect_vertices (run_rect m yr)) rs) =
           - int (count_list (map (shift m) (concat (map located_cells rs))) c)
       \<and> length (filter (\<lambda>vs. subpath_winding c vs \<noteq> 0) (map (\<lambda>yr. rect_vertices (run_rect m yr)) rs)) =
           count_list (map (shift m) (concat (map located_cells rs))) c"
  using assms
proof (induction rs)
  case Nil
  show ?case by (simp add: winding_def)
next
  case (Cons yr rs)
  then have ok: "run_ok (snd yr)" and oks: "list_all (\<lambda>yr. run_ok (snd yr)) rs"
    by simp_all
  from run_winding [OF ok, of c m] Cons.IH [OF oks]
  show ?case
    by (auto simp: winding_def)
qed

lemma dark_list_set:
  "(x, y) \<in> set (dark_list k rows) \<longleftrightarrow>
     k \<le> y \<and> y - k < length rows \<and> x < length (rows ! (y - k)) \<and> rows ! (y - k) ! x"
proof (induction rows arbitrary: k)
  case Nil
  show ?case by (simp add: dark_list_def)
next
  case (Cons row rows)
  have split: "dark_list k (row # rows) =
      map (\<lambda>x. (x, k)) (filter (\<lambda>x. row ! x) [0..<length row]) @ dark_list (Suc k) rows"
    by (simp add: dark_list_def)
  show ?case
  proof (cases "y = k")
    case True
    then show ?thesis
      using Cons.IH [of "Suc k"] by (auto simp: split)
  next
    case False
    then have "(row # rows) ! (y - k) = rows ! (y - Suc k)" if "k \<le> y"
      using that by (simp add: nth_Cons')
    then show ?thesis
      using False Cons.IH [of "Suc k"] by (auto simp: split)
  qed
qed

lemma dark_list_distinct: "distinct (dark_list k rows)"
proof (induction rows arbitrary: k)
  case Nil
  show ?case by (simp add: dark_list_def)
next
  case (Cons row rows)
  have split: "dark_list k (row # rows) =
      map (\<lambda>x. (x, k)) (filter (\<lambda>x. row ! x) [0..<length row]) @ dark_list (Suc k) rows"
    by (simp add: dark_list_def)
  have "distinct (map (\<lambda>x. (x, k)) (filter (\<lambda>x. row ! x) [0..<length row]))"
    by (simp add: distinct_map inj_on_def)
  moreover have "set (map (\<lambda>x. (x, k)) (filter (\<lambda>x. row ! x) [0..<length row]))
      \<inter> set (dark_list (Suc k) rows) = {}"
    using dark_list_set [of _ _ "Suc k" rows] by auto
  ultimately show ?case
    using Cons.IH [of "Suc k"] by (simp add: split)
qed

lemma shifted_dark_list:
  "distinct (map (shift m) (dark_list 0 M))"
  "set (map (shift m) (dark_list 0 M)) = dark_cells M m"
proof -
  show "distinct (map (shift m) (dark_list 0 M))"
    by (auto simp: distinct_map dark_list_distinct inj_on_def shift_def)
  show "set (map (shift m) (dark_list 0 M)) = dark_cells M m"
    using dark_list_set [of _ _ 0 M]
    by (auto simp: dark_cells_def shift_def image_iff)
qed


text \<open>
  Claim C1. For every matrix and every margin, the path string of \<^verbatim>\<open>generatePath\<close> is
  well-formed path data, the cells it fills are exactly the dark cells of the matrix shifted
  by the margin, and every dark cell is covered by exactly one of its run operations (no
  other cell by any). The matrix need not be rectangular and the margin may be negative.
\<close>

theorem generatePath_raster:
  "rasterize (generatePath M m) = Some (dark_cells M m)
   \<and> covering_ops (generatePath M m) c = Some (if c \<in> dark_cells M m then 1 else 0)"
proof -
  from path_subpaths_generatePath [of M m]
  obtain rs where ok: "list_all (\<lambda>yr. run_ok (snd yr)) rs"
    and cells: "concat (map located_cells rs) = dark_list 0 M"
    and subs: "path_subpaths (generatePath M m) = Some (map (\<lambda>yr. rect_vertices (run_rect m yr)) rs)"
    by blast
  have count: "count_list (map (shift m) (dark_list 0 M)) c' = (if c' \<in> dark_cells M m then 1 else 0)" for c'
    using count_list_distinct [OF shifted_dark_list(1) [of m M], of c'] shifted_dark_list(2) [of m M]
    by simp
  have w: "winding c' (map (\<lambda>yr. rect_vertices (run_rect m yr)) rs) \<noteq> 0 \<longleftrightarrow> c' \<in> dark_cells M m" for c'
    using runs_winding [OF ok, of c' m] count [of c'] cells by simp
  have n: "length (filter (\<lambda>vs. subpath_winding c vs \<noteq> 0) (map (\<lambda>yr. rect_vertices (run_rect m yr)) rs))
      = (if c \<in> dark_cells M m then 1 else 0)"
    using runs_winding [OF ok, of c m] count [of c] cells by simp
  show ?thesis
    using subs w n by (simp add: rasterize_def covering_ops_def)
qed

end
